theory Spec2Isabelle
  imports Main "HOL-Library.Word"
begin

unbundle bit_operations_syntax

section \<open>The status report buffer (fish.c, lines 12--38)\<close>

text \<open>
  \<^verbatim>\<open>endstatus\<close> is a character array of \<^verbatim>\<open>ENDSTATUS_BUF_LEN\<close> bytes that holds a
  NUL-terminated string.  The array is modelled as a list of characters, one entry per
  byte; the C string it holds is the run of characters before the first NUL.  An access
  outside the array is undefined behaviour in C; the operations below return \<open>None\<close> for it.
\<close>

definition ENDSTATUS_BUF_LEN :: nat where
  "ENDSTATUS_BUF_LEN = 4096"

definition NUL :: char where
  "NUL = CHR 0x00"

definition newline :: char where
  "newline = CHR 0x0A"

text \<open>The string held by an array: the characters before the first NUL.\<close>

definition cstr :: "char list \<Rightarrow> string" where
  "cstr buf = takeWhile (\<lambda>c. c \<noteq> NUL) buf"

text \<open>\<^verbatim>\<open>strlen\<close> scans for the first NUL; without one it runs off the array.\<close>

definition strlen :: "char list \<Rightarrow> nat option" where
  "strlen buf = (if NUL \<in> set buf then Some (length (cstr buf)) else None)"

text \<open>Subtraction in \<^verbatim>\<open>size_t\<close> (64 bits, unsigned): it wraps around below zero.\<close>

definition size_sub :: "nat \<Rightarrow> nat \<Rightarrow> nat" where
  "size_sub a b = nat ((int a - int b) mod 2 ^ 64)"

text \<open>
  \<^verbatim>\<open>snprintf(buf + off, size, ...)\<close> with the formatted text \<open>s\<close>: nothing is written when
  \<open>size\<close> is 0; otherwise at most \<open>size - 1\<close> characters of \<open>s\<close> and a closing NUL are
  stored from offset \<open>off\<close> on.
\<close>

definition snprintf :: "char list \<Rightarrow> nat \<Rightarrow> nat \<Rightarrow> string \<Rightarrow> char list option" where
  "snprintf buf off sz s =
     (if sz = 0 then Some buf
      else let out = take (sz - 1) s @ [NUL] in
           if off + length out \<le> length buf
           then Some (take off buf @ out @ drop (off + length out) buf)
           else None)"

subsection \<open>Wait statuses and decimal output\<close>

text \<open>
  Modelled from the spec: the macros \<^verbatim>\<open>WIFEXITED\<close>, \<^verbatim>\<open>WEXITSTATUS\<close>, \<^verbatim>\<open>WIFSIGNALED\<close> and
  \<^verbatim>\<open>WTERMSIG\<close> come from the system header, which is not part of the repository.  The spec
  tells a child that exited normally, with an exit status, from one that was terminated by
  a signal, with a signal number; the status word filled in by \<^verbatim>\<open>waitpid\<close> is read only
  through the macros, so the model takes the decoded view of it.  (A stopped or continued
  child is neither; \<^verbatim>\<open>waitpid\<close> as it is called here reports none.)
\<close>

datatype wstatus = Exited nat | Signaled nat | Stopped nat | Continued

fun WIFEXITED :: "wstatus \<Rightarrow> bool" where
  "WIFEXITED (Exited n) = True"
| "WIFEXITED st = False"

fun WEXITSTATUS :: "wstatus \<Rightarrow> int" where
  "WEXITSTATUS (Exited n) = int n"
| "WEXITSTATUS st = 0"

fun WIFSIGNALED :: "wstatus \<Rightarrow> bool" where
  "WIFSIGNALED (Signaled n) = True"
| "WIFSIGNALED st = False"

fun WTERMSIG :: "wstatus \<Rightarrow> int" where
  "WTERMSIG (Signaled n) = int n"
| "WTERMSIG st = 0"

text \<open>The conversions \<^verbatim>\<open>%d\<close> and \<^verbatim>\<open>%i\<close>: a signed decimal numeral.\<close>

definition digit_char :: "nat \<Rightarrow> char" where
  "digit_char d = ''0123456789'' ! (d mod 10)"

fun decimal :: "nat \<Rightarrow> string" where
  "decimal n = (if n < 10 then [digit_char n] else decimal (n div 10) @ [digit_char (n mod 10)])"

declare decimal.simps [simp del]

definition fmt_d :: "int \<Rightarrow> string" where
  "fmt_d i = (if i < 0 then CHR ''-'' # decimal (nat (- i)) else decimal (nat i))"

text \<open>The two format strings of \<^verbatim>\<open>display_process_end\<close>, filled in.\<close>

definition exit_line :: "int \<Rightarrow> int \<Rightarrow> string" where
  "exit_line pid n = ''PID '' @ fmt_d pid @ '' finished with exit status '' @ fmt_d n @ [newline]"

definition signal_line :: "int \<Rightarrow> int \<Rightarrow> string" where
  "signal_line pid n = ''PID '' @ fmt_d pid @ '' finished with signal '' @ fmt_d n @ [newline]"

subsection \<open>\<^verbatim>\<open>display_process_end\<close>\<close>

text \<open>
  One call of \<^verbatim>\<open>snprintf(endstatus + strlen(endstatus),
  ENDSTATUS_BUF_LEN - strlen(endstatus), ...)\<close>.
\<close>

definition append_status :: "string \<Rightarrow> char list \<Rightarrow> char list option" where
  "append_status s buf =
     (case strlen buf of
        None \<Rightarrow> None
      | Some n \<Rightarrow> snprintf buf n (size_sub ENDSTATUS_BUF_LEN n) s)"

definition display_process_end :: "wstatus \<Rightarrow> int \<Rightarrow> char list \<Rightarrow> char list option" where
  "display_process_end stat pid buf =
     (case (if WIFEXITED stat then append_status (exit_line pid (WEXITSTATUS stat)) buf
            else Some buf) of
        None \<Rightarrow> None
      | Some buf1 \<Rightarrow>
          if WIFSIGNALED stat then append_status (signal_line pid (WTERMSIG stat)) buf1
          else Some buf1)"

text \<open>
  The state the array is in from \<^verbatim>\<open>calloc\<close> on: \<^verbatim>\<open>ENDSTATUS_BUF_LEN\<close> bytes with a
  NUL among them.
\<close>

definition buf_ok :: "char list \<Rightarrow> bool" where
  "buf_ok buf = (length buf = ENDSTATUS_BUF_LEN \<and> NUL \<in> set buf)"

text \<open>The status line of a termination: what \<^verbatim>\<open>display_process_end\<close> formats for it.\<close>

definition status_line :: "wstatus \<Rightarrow> int \<Rightarrow> string" where
  "status_line stat pid =
     (case stat of
        Exited n \<Rightarrow> exit_line pid (int n)
      | Signaled n \<Rightarrow> signal_line pid (int n)
      | _ \<Rightarrow> [])"

text \<open>A sequence of calls, one per termination, in order.\<close>

fun display_all :: "(wstatus \<times> int) list \<Rightarrow> char list \<Rightarrow> char list option" where
  "display_all [] buf = Some buf"
| "display_all ((stat, pid) # es) buf =
     (case display_process_end stat pid buf of
        None \<Rightarrow> None
      | Some buf1 \<Rightarrow> display_all es buf1)"

section \<open>The operating system as the shell sees it\<close>

subsection \<open>Descriptor tables\<close>

text \<open>
  What a descriptor refers to: the terminal the shell was started on, an end of the pipe
  number \<open>k\<close>, or a file opened by path with the flags of the \<^verbatim>\<open>open\<close> call.
\<close>

datatype oflag = O_RDONLY | O_WRONLY | O_CREAT | O_APPEND | O_TRUNC

datatype ofile = Tty | PipeR nat | PipeW nat | OpenFile string "oflag set"

text \<open>
  A descriptor table lists, by descriptor number, what each open descriptor refers to;
  \<open>None\<close> is a closed one, and so is every number past the end of the list.
\<close>

type_synonym fdtable = "ofile option list"

fun get_fd :: "fdtable \<Rightarrow> nat \<Rightarrow> ofile option" where
  "get_fd [] n = None"
| "get_fd (x # xs) 0 = x"
| "get_fd (x # xs) (Suc n) = get_fd xs n"

fun set_fd :: "fdtable \<Rightarrow> nat \<Rightarrow> ofile option \<Rightarrow> fdtable" where
  "set_fd [] 0 v = [v]"
| "set_fd [] (Suc n) v = None # set_fd [] n v"
| "set_fd (x # xs) 0 v = v # xs"
| "set_fd (x # xs) (Suc n) v = x # set_fd xs n v"

text \<open>New descriptors take the lowest number that is closed.\<close>

fun lowest_free :: "fdtable \<Rightarrow> nat" where
  "lowest_free [] = 0"
| "lowest_free (None # xs) = 0"
| "lowest_free (Some f # xs) = Suc (lowest_free xs)"

definition fd_valid :: "fdtable \<Rightarrow> int \<Rightarrow> bool" where
  "fd_valid t fd = (0 \<le> fd \<and> get_fd t (nat fd) \<noteq> None)"

text \<open>\<^verbatim>\<open>close\<close> and \<^verbatim>\<open>dup2\<close> fail, and change nothing, on a descriptor that is not open.\<close>

definition sys_close :: "int \<Rightarrow> fdtable \<Rightarrow> fdtable" where
  "sys_close fd t = (if fd_valid t fd then set_fd t (nat fd) None else t)"

definition sys_dup2 :: "int \<Rightarrow> int \<Rightarrow> fdtable \<Rightarrow> fdtable" where
  "sys_dup2 oldfd newfd t =
     (if fd_valid t oldfd \<and> 0 \<le> newfd then set_fd t (nat newfd) (get_fd t (nat oldfd)) else t)"

definition fd_alloc :: "ofile \<Rightarrow> fdtable \<Rightarrow> int \<times> fdtable" where
  "fd_alloc f t = (let n = lowest_free t in (int n, set_fd t n (Some f)))"

subsection \<open>Files, processes and the state of the system\<close>

text \<open>
  A path names a regular file, with its content and permission bits, or the null device,
  on which every read returns end-of-stream at once and every write is discarded.
\<close>

type_synonym mode_t = "32 word"

datatype node = Regular string mode_t | NullDevice

definition S_IRUSR :: mode_t where
  "S_IRUSR = 0x100"

definition S_IWUSR :: mode_t where
  "S_IWUSR = 0x80"

text \<open>
  A child process as it stands when it calls \<^verbatim>\<open>execvp\<close>: its descriptor table, whether it
  ignores \<^verbatim>\<open>SIGCHLD\<close>, the diagnostics it has written with \<^verbatim>\<open>perror\<close> (the text handed
  to \<^verbatim>\<open>perror\<close>; the system adds the error's name), the arguments it hands to
  \<^verbatim>\<open>execvp\<close>, whether the program was loaded (if not, the child exits with status 1), and
  whether the child made an invalid memory access (it is then killed by \<^verbatim>\<open>SIGSEGV\<close>).
\<close>

record child =
  c_pid :: int
  c_fds :: fdtable
  c_ign_sigchld :: bool
  c_diag :: "string list"
  c_argv :: "string list"
  c_loaded :: bool
  c_fault :: bool

definition SIGSEGV :: nat where
  "SIGSEGV = 11"

text \<open>
  The state: the shell process (descriptor table, the array \<^verbatim>\<open>endstatus\<close>, working
  directory, what it wrote to the error stream, the children it forked, the children it
  has not collected yet with their status once they have terminated, the process ids it
  waited for with a blocking \<^verbatim>\<open>waitpid\<close>, and whether it made an access outside an
  array) and the system around it (files, the next process id and pipe number, how many
  processes can still be created, the status each program ends with, for each child
  whether \<^verbatim>\<open>SIGCHLD\<close> is handled before a blocking \<^verbatim>\<open>waitpid\<close> for that child has
  collected it, the programs that can be loaded, the directories, the environment and the
  user database, the creation mask, and the indeterminate values C leaves in an
  uninitialised variable or in the place of an argument that is not passed).
\<close>

record sys =
  fds :: fdtable
  endstatus :: "char list"
  cwd :: string
  diag :: "string list"
  spawned :: "child list"
  children :: "(int \<times> wstatus option) list"
  waited :: "int list"
  crashed :: bool
  files :: "string \<Rightarrow> node option"
  next_pid :: int
  next_pipe :: nat
  max_forks :: nat
  fate :: "int \<Rightarrow> wstatus"
  handler_first :: "int \<Rightarrow> bool"
  programs :: "string \<Rightarrow> bool"
  directories :: "string \<Rightarrow> bool"
  home_env :: "string option"
  passwd :: "string \<Rightarrow> string option"
  umask :: mode_t
  junk_int :: int
  junk_stat :: wstatus
  junk_mode :: mode_t

subsection \<open>System calls\<close>

text \<open>
  \<^verbatim>\<open>perror\<close> and \<^verbatim>\<open>fprintf(stderr, ...)\<close> of the shell itself: one entry of \<open>diag\<close> per
  call (for \<^verbatim>\<open>perror\<close> the text handed to it; the system adds the error's name).
\<close>

definition perror :: "string \<Rightarrow> sys \<Rightarrow> sys" where
  "perror msg s = s\<lparr>diag := diag s @ [msg]\<rparr>"

definition fprintf_stderr :: "string \<Rightarrow> sys \<Rightarrow> sys" where
  "fprintf_stderr txt s = s\<lparr>diag := diag s @ [txt]\<rparr>"

text \<open>
  \<^verbatim>\<open>pipe\<close> opens the two ends of a new pipe on the two lowest closed descriptors.  (The
  source does not check its result; the model has no limit on descriptors.)
\<close>

definition sys_pipe :: "sys \<Rightarrow> (int \<times> int) \<times> sys" where
  "sys_pipe s =
     (let k = next_pipe s;
          (r, t1) = fd_alloc (PipeR k) (fds s);
          (w, t2) = fd_alloc (PipeW k) t1
      in ((r, w), s\<lparr>fds := t2, next_pipe := k + 1\<rparr>))"

text \<open>The descriptors of the two ends of a new pipe, and the table after \<^verbatim>\<open>pipe\<close>.\<close>

definition pipe_r :: "fdtable \<Rightarrow> nat" where
  "pipe_r t = lowest_free t"

definition pipe_w :: "fdtable \<Rightarrow> nat \<Rightarrow> nat" where
  "pipe_w t k = lowest_free (set_fd t (lowest_free t) (Some (PipeR k)))"

definition pipe_table :: "fdtable \<Rightarrow> nat \<Rightarrow> fdtable" where
  "pipe_table t k = set_fd (set_fd t (pipe_r t) (Some (PipeR k))) (pipe_w t k) (Some (PipeW k))"

text \<open>
  \<^verbatim>\<open>fork\<close>, on the parent's side: \<open>-1\<close> when no process can be created, the new child's
  process id otherwise.
\<close>

definition sys_fork :: "sys \<Rightarrow> int \<times> sys" where
  "sys_fork s =
     (if max_forks s = 0 then (-1, s)
      else (next_pid s,
            s\<lparr>next_pid := next_pid s + 1, max_forks := max_forks s - 1,
              children := children s @ [(next_pid s, None)]\<rparr>))"

text \<open>
  \<^verbatim>\<open>open(path, flags)\<close> or \<^verbatim>\<open>open(path, flags, mode)\<close> on the file system (the calling
  user owns the files and is not the superuser).  A missing file is created under
  \<^verbatim>\<open>O_CREAT\<close> with the permissions \<^verbatim>\<open>mode & ~umask\<close>; when the call passes no mode, the
  bits are whatever lies in the argument's place.  An existing file is opened if its
  permissions allow the access, and emptied under \<^verbatim>\<open>O_TRUNC\<close>.
\<close>

definition fs_open :: "string \<Rightarrow> oflag set \<Rightarrow> mode_t option \<Rightarrow> sys \<Rightarrow> ofile option \<times> sys" where
  "fs_open path flags mode s =
     (case files s path of
        None \<Rightarrow>
          if O_CREAT \<in> flags
          then (Some (OpenFile path flags),
                s\<lparr>files := (files s)(path \<mapsto>
                     Regular [] ((case mode of Some m \<Rightarrow> m | None \<Rightarrow> junk_mode s) AND NOT (umask s)))\<rparr>)
          else (None, s)
      | Some NullDevice \<Rightarrow> (Some (OpenFile path flags), s)
      | Some (Regular content perm) \<Rightarrow>
          if (O_WRONLY \<in> flags \<and> perm AND S_IWUSR = 0) \<or> (O_RDONLY \<in> flags \<and> perm AND S_IRUSR = 0)
          then (None, s)
          else (Some (OpenFile path flags),
                if O_TRUNC \<in> flags then s\<lparr>files := (files s)(path \<mapsto> Regular [] perm)\<rparr> else s))"

text \<open>
  A blocking \<^verbatim>\<open>waitpid(pid, &stat, 0)\<close>: it returns once the child has terminated, with
  its status, and the child is collected.  When \<open>pid\<close> is not a child that can be waited
  for, the call fails and \<^verbatim>\<open>stat\<close> keeps its indeterminate value.  A child that made an
  invalid memory access was killed by \<^verbatim>\<open>SIGSEGV\<close>, and a child whose program could not be
  loaded has exited with status 1.
\<close>

definition final_status :: "sys \<Rightarrow> int \<Rightarrow> wstatus" where
  "final_status s pid =
     (case find (\<lambda>c. c_pid c = pid) (spawned s) of
        Some c \<Rightarrow>
          if c_fault c then Signaled SIGSEGV
          else if c_loaded c then fate s pid else Exited 1
      | None \<Rightarrow> fate s pid)"

definition sys_waitpid :: "int \<Rightarrow> sys \<Rightarrow> wstatus \<times> sys" where
  "sys_waitpid pid s =
     (case map_of (children s) pid of
        None \<Rightarrow> (junk_stat s, s\<lparr>waited := waited s @ [pid]\<rparr>)
      | Some st \<Rightarrow>
          ((case st of Some w \<Rightarrow> w | None \<Rightarrow> final_status s pid),
           s\<lparr>children := filter (\<lambda>e. fst e \<noteq> pid) (children s), waited := waited s @ [pid]\<rparr>))"

text \<open>
  \<^verbatim>\<open>waitpid(-1, &stat, WNOHANG)\<close>: \<open>-1\<close> when the shell has no child left to wait for,
  \<open>0\<close> when it has children but none has terminated, and otherwise the process id and
  status of a terminated child (the first in the table), which is collected.
\<close>

fun first_terminated :: "(int \<times> wstatus option) list \<Rightarrow> (int \<times> wstatus) option" where
  "first_terminated [] = None"
| "first_terminated ((p, None) # cs) = first_terminated cs"
| "first_terminated ((p, Some w) # cs) = Some (p, w)"

fun remove_child :: "int \<Rightarrow> (int \<times> wstatus option) list \<Rightarrow> (int \<times> wstatus option) list" where
  "remove_child p [] = []"
| "remove_child p ((q, w) # cs) = (if q = p \<and> w \<noteq> None then cs else (q, w) # remove_child p cs)"

definition waitpid_nohang :: "sys \<Rightarrow> int \<times> wstatus option \<times> sys" where
  "waitpid_nohang s =
     (if children s = [] then (-1, None, s)
      else case first_terminated (children s) of
             None \<Rightarrow> (0, None, s)
           | Some (p, w) \<Rightarrow> (p, Some w, s\<lparr>children := remove_child p (children s)\<rparr>))"

text \<open>
  Some child of the table has not terminated (and the process ids are not \<open>-1\<close>, which
  \<^verbatim>\<open>fork\<close> never hands out).
\<close>

definition has_running :: "sys \<Rightarrow> bool" where
  "has_running s =
     ((\<exists>q. (q, None) \<in> set (children s)) \<and> (\<forall>e \<in> set (children s). fst e \<noteq> -1))"

text \<open>The children of the table that have terminated, with their statuses, in order.\<close>

fun terminated :: "(int \<times> wstatus option) list \<Rightarrow> (wstatus \<times> int) list" where
  "terminated [] = []"
| "terminated ((p, None) # cs) = terminated cs"
| "terminated ((p, Some w) # cs) = (w, p) # terminated cs"

text \<open>\<^verbatim>\<open>chdir\<close>: \<open>0\<close> and the new working directory, or \<open>-1\<close>.\<close>

definition sys_chdir :: "string \<Rightarrow> sys \<Rightarrow> int \<times> sys" where
  "sys_chdir path s = (if directories s path then (0, s\<lparr>cwd := path\<rparr>) else (-1, s))"

section \<open>The shell (fish.c)\<close>

subsection \<open>Recording a termination, and the \<^verbatim>\<open>SIGCHLD\<close> handler (lines 24--55)\<close>

text \<open>
  The call \<^verbatim>\<open>display_process_end(stat, pid)\<close> on the global array; an access outside the
  array is recorded in \<open>crashed\<close>.
\<close>

definition record_end :: "wstatus \<Rightarrow> int \<Rightarrow> sys \<Rightarrow> sys" where
  "record_end stat pid s =
     (case display_process_end stat pid (endstatus s) of
        Some buf \<Rightarrow> s\<lparr>endstatus := buf\<rparr>
      | None \<Rightarrow> s\<lparr>crashed := True\<rparr>)"

text \<open>
  The loop of \<^verbatim>\<open>sigchld_handler\<close>:
  \<^verbatim>\<open>do { pid = waitpid(-1, &stat, WNOHANG); if (pid > 0) display_process_end(stat, pid); }
  while (pid != -1);\<close>
  The result is \<open>None\<close> when the loop does not end.
\<close>

partial_function (option) sigchld_handler :: "sys \<Rightarrow> sys option" where
  "sigchld_handler s =
     (case waitpid_nohang s of
        (pid, stat, s1) \<Rightarrow>
          (let s2 = (if pid > 0 then record_end (case stat of Some w \<Rightarrow> w | None \<Rightarrow> junk_stat s1) pid s1
                     else s1)
           in if pid \<noteq> -1 then sigchld_handler s2 else Some s2))"

subsection \<open>Parsed command lines (the fields of \<^verbatim>\<open>struct line\<close> and \<^verbatim>\<open>struct cmd\<close> in use)\<close>

text \<open>
  Modelled from the spec: the declarations of \<^verbatim>\<open>struct line\<close> and \<^verbatim>\<open>struct cmd\<close>
  (\<^verbatim>\<open>cmdline.h\<close>) are not part of the repository.  The spec describes a Line as an ordered
  sequence of Commands with an optional input-file path, an optional output-file path with
  an append-or-truncate flag and a background flag, and a Command as an ordered sequence of
  argument strings; the records hold these, under the names of the fields that fish.c
  reads.  A \<^verbatim>\<open>NULL\<close> path is \<open>None\<close>; \<^verbatim>\<open>n_cmds\<close> and \<^verbatim>\<open>n_args\<close> are the lengths of the
  lists.
\<close>

record cmd =
  args :: "string list"

record line =
  cmds :: "cmd list"
  file_input :: "string option"
  file_output :: "string option"
  file_output_append :: bool
  background :: bool

definition n_args :: "cmd \<Rightarrow> nat" where
  "n_args c = length (args c)"

definition n_cmds :: "line \<Rightarrow> nat" where
  "n_cmds l = length (cmds l)"

text \<open>The test \<^verbatim>\<open>commandIndex == line->n_cmds - 1\<close>, in \<^verbatim>\<open>size_t\<close>.\<close>

definition is_last :: "line \<Rightarrow> nat \<Rightarrow> bool" where
  "is_last line commandIndex = (commandIndex = size_sub (n_cmds line) 1)"

subsection \<open>The child's side of \<^verbatim>\<open>execute_command\<close> (lines 78--126)\<close>

text \<open>
  \<^verbatim>\<open>open\<close> in the child: the file system decides, and on success the child's lowest closed
  descriptor refers to the file; on failure the result is \<open>-1\<close>.
\<close>

definition child_open ::
  "string \<Rightarrow> oflag set \<Rightarrow> mode_t option \<Rightarrow> child \<times> sys \<Rightarrow> int \<times> child \<times> sys" where
  "child_open path flags mode cs =
     (case cs of (c, s) \<Rightarrow>
        (case fs_open path flags mode s of
           (None, s1) \<Rightarrow> (-1, c, s1)
         | (Some f, s1) \<Rightarrow>
             (case fd_alloc f (c_fds c) of (fd, t) \<Rightarrow> (fd, c\<lparr>c_fds := t\<rparr>, s1))))"

definition child_perror :: "string \<Rightarrow> child \<Rightarrow> child" where
  "child_perror msg c = c\<lparr>c_diag := c_diag c @ [msg]\<rparr>"

text \<open>
  Lines 88--103.  The file opened for input is
  \<^verbatim>\<open>line->file_input != NULL ? line->file_input : "/dev/null"\<close>.
\<close>

definition input_path :: "line \<Rightarrow> string" where
  "input_path line = (case file_input line of Some path \<Rightarrow> path | None \<Rightarrow> ''/dev/null'')"

text \<open>The condition of line 93.\<close>

definition wants_input :: "line \<Rightarrow> nat \<Rightarrow> bool" where
  "wants_input line commandIndex =
     ((commandIndex = 0 \<and> file_input line \<noteq> None) \<or> background line)"

definition redirect_input :: "line \<Rightarrow> nat \<Rightarrow> int \<Rightarrow> child \<times> sys \<Rightarrow> child \<times> sys" where
  "redirect_input line commandIndex pipeIn cs =
     (case cs of (c, s) \<Rightarrow>
        if pipeIn > 0
        then (c\<lparr>c_fds := sys_close pipeIn (sys_dup2 pipeIn 0 (c_fds c))\<rparr>, s)
        else if wants_input line commandIndex
        then (case child_open (input_path line) {O_RDONLY} None (c, s) of
                (input, c1, s1) \<Rightarrow>
                  if input = -1 then (child_perror ''Input redirection failed'' c1, s1)
                  else (c1\<lparr>c_fds := sys_close input (sys_dup2 input 0 (c_fds c1))\<rparr>, s1))
        else (c, s))"

text \<open>
  Lines 105--120.  The flags are
  \<^verbatim>\<open>O_WRONLY | O_CREAT | (line->file_output_append ? O_APPEND : O_TRUNC)\<close>; the call of
  \<^verbatim>\<open>open\<close> has two arguments, so no mode is passed.
\<close>

definition out_path :: "line \<Rightarrow> string" where
  "out_path line = (case file_output line of Some path \<Rightarrow> path | None \<Rightarrow> [])"

definition output_flags :: "line \<Rightarrow> oflag set" where
  "output_flags line =
     {O_WRONLY, O_CREAT} \<union> (if file_output_append line then {O_APPEND} else {O_TRUNC})"

definition redirect_output :: "line \<Rightarrow> nat \<Rightarrow> int \<times> int \<Rightarrow> child \<times> sys \<Rightarrow> child \<times> sys" where
  "redirect_output line commandIndex pipes cs =
     (case cs of (c, s) \<Rightarrow>
        (let c1 = (if \<not> is_last line commandIndex
                   then c\<lparr>c_fds := sys_close (snd pipes) (sys_dup2 (snd pipes) 1 (c_fds c))\<rparr>
                   else c)
         in if is_last line commandIndex \<and> file_output line \<noteq> None
            then (case child_open (out_path line) (output_flags line) None (c1, s) of
                    (output, c2, s2) \<Rightarrow>
                      if output = -1 then (child_perror ''Output redirection failed'' c2, s2)
                      else (c2\<lparr>c_fds := sys_close output (sys_dup2 output 1 (c_fds c2))\<rparr>, s2))
            else (c1, s)))"

text \<open>
  Lines 122--125: \<^verbatim>\<open>execvp(command->args[0], command->args)\<close>, and on its failure
  \<^verbatim>\<open>perror\<close> and \<^verbatim>\<open>exit(1)\<close>.  For a command with no argument at all, \<^verbatim>\<open>args[0]\<close> is
  the null pointer that closes the list: \<^verbatim>\<open>execvp\<close> reads the name through it, and the
  child is killed before it reaches \<^verbatim>\<open>perror\<close>.
\<close>

definition child_exec :: "cmd \<Rightarrow> child \<times> sys \<Rightarrow> child \<times> sys" where
  "child_exec command cs =
     (case cs of (c, s) \<Rightarrow>
        (let c1 = c\<lparr>c_argv := args command\<rparr>
         in case args command of
              [] \<Rightarrow> (c1\<lparr>c_fault := True\<rparr>, s)
            | a # _ \<Rightarrow>
                if programs s a then (c1\<lparr>c_loaded := True\<rparr>, s)
                else (child_perror ''execvp failed'' c1, s)))"

text \<open>
  The child starts as a copy of the shell at the \<^verbatim>\<open>fork\<close>; a child of a background line
  first sets \<^verbatim>\<open>SIGCHLD\<close> to \<^verbatim>\<open>SIG_IGN\<close> (lines 79--86).  The child is recorded as it stands
  at \<^verbatim>\<open>execvp\<close>.
\<close>

definition child0 :: "line \<Rightarrow> int \<Rightarrow> sys \<Rightarrow> child" where
  "child0 line pid s =
     \<lparr>c_pid = pid, c_fds = fds s, c_ign_sigchld = background line, c_diag = [],
      c_argv = [], c_loaded = False, c_fault = False\<rparr>"

definition child_at_exec ::
  "line \<Rightarrow> cmd \<Rightarrow> nat \<Rightarrow> int \<Rightarrow> int \<times> int \<Rightarrow> int \<Rightarrow> sys \<Rightarrow> child \<times> sys" where
  "child_at_exec line command commandIndex pipeIn pipes pid s =
     child_exec command
       (redirect_output line commandIndex pipes
          (redirect_input line commandIndex pipeIn (child0 line pid s, s)))"

definition child_code :: "line \<Rightarrow> cmd \<Rightarrow> nat \<Rightarrow> int \<Rightarrow> int \<times> int \<Rightarrow> int \<Rightarrow> sys \<Rightarrow> sys" where
  "child_code line command commandIndex pipeIn pipes pid s =
     (case child_at_exec line command commandIndex pipeIn pipes pid s of
        (c, s1) \<Rightarrow> s1\<lparr>spawned := spawned s1 @ [c]\<rparr>)"

subsection \<open>\<^verbatim>\<open>execute_command\<close> (lines 65--138)\<close>

text \<open>
  The wait of lines 131--135 runs with the handler that \<^verbatim>\<open>main\<close> has installed for
  \<^verbatim>\<open>SIGCHLD\<close> (lines 213--217), and every child that terminates raises the signal.  Once
  entered, the handler does not return before the shell has no child left; while its loop
  goes round, the children that still run come to their end and are collected by it
  (every child is taken to end sooner or later, as for the blocking wait).
  \<open>children_end\<close> is the table once the running children have terminated, each with its
  final status.
\<close>

definition children_end :: "sys \<Rightarrow> sys" where
  "children_end s =
     s\<lparr>children := map (\<lambda>e. case snd e of
                                None \<Rightarrow> (fst e, Some (final_status s (fst e)))
                              | Some w \<Rightarrow> e)
                         (children s)\<rparr>"

text \<open>
  \<^verbatim>\<open>waitpid(pid, &stat, 0)\<close> of line 133; its result is not tested.  The system decides
  which comes first (\<open>handler_first\<close>).  Either a child terminates, \<open>pid\<close> or another one,
  and the signal is handled before the call has collected \<open>pid\<close>: the handler collects
  every child, \<open>pid\<close> among them, and the call then finds no such child, fails and leaves
  \<^verbatim>\<open>stat\<close> as it was, uninitialised.  Or the call collects \<open>pid\<close> first, and the signal that
  the end of \<open>pid\<close> has raised is handled when the call returns, before line 134.  (The
  call also fails at once, with no signal, when \<open>pid\<close> is not a child of the shell.)  The
  result is \<open>None\<close> when the handler does not return.
\<close>

definition wait_foreground :: "int \<Rightarrow> sys \<Rightarrow> (wstatus \<times> sys) option" where
  "wait_foreground pid s =
     (if handler_first s pid
      then (case sigchld_handler (children_end s) of
              None \<Rightarrow> None
            | Some s1 \<Rightarrow> Some (sys_waitpid pid s1))
      else (case sys_waitpid pid s of
              (stat, s1) \<Rightarrow>
                if map_of (children s) pid = None then Some (stat, s1)
                else (case sigchld_handler (children_end s1) of
                        None \<Rightarrow> None
                      | Some s2 \<Rightarrow> Some (stat, s2))))"

text \<open>
  \<^verbatim>\<open>pipes\<close> is uninitialised unless \<^verbatim>\<open>pipe\<close> is called.  The result is the read end of the
  pipe opened for the command, or \<open>-1\<close>; it is \<open>None\<close> when the call does not return.
\<close>

definition execute_command :: "line \<Rightarrow> cmd \<Rightarrow> nat \<Rightarrow> int \<Rightarrow> sys \<Rightarrow> (int \<times> sys) option" where
  "execute_command line command commandIndex pipeIn s =
     (case (if \<not> is_last line commandIndex then sys_pipe s
            else ((junk_int s, junk_int s), s)) of
        (pipes, s1) \<Rightarrow>
          (case sys_fork s1 of
             (pid, s2) \<Rightarrow>
               if pid = -1 then Some (-1, perror ''fork failed'' s2)
               else
                 (let s3 = child_code line command commandIndex pipeIn pipes pid s2;
                      s4 = (if \<not> is_last line commandIndex
                            then s3\<lparr>fds := sys_close (snd pipes) (fds s3)\<rparr> else s3);
                      s5 = (if pipeIn > 0 then s4\<lparr>fds := sys_close pipeIn (fds s4)\<rparr> else s4);
                      s6 = (if \<not> background line \<and> is_last line commandIndex
                            then (case wait_foreground pid s5 of
                                    None \<Rightarrow> None
                                  | Some (stat, s') \<Rightarrow> Some (record_end stat pid s'))
                            else Some s5)
                  in (case s6 of
                        None \<Rightarrow> None
                      | Some s7 \<Rightarrow>
                          Some (if \<not> is_last line commandIndex then fst pipes else -1, s7)))))"

subsection \<open>\<^verbatim>\<open>cd\<close> (lines 144--178)\<close>

definition BUFLEN :: nat where
  "BUFLEN = 512"

text \<open>
  The name copied into \<^verbatim>\<open>user\<close>, an array of \<^verbatim>\<open>BUFLEN\<close> zero bytes: the characters after
  the tilde up to the first slash.  A name of \<^verbatim>\<open>BUFLEN\<close> characters or more does not fit
  with its closing NUL.
\<close>

text \<open>
  The two early returns are the first two branches.  \<^verbatim>\<open>chdir\<close> gets \<^verbatim>\<open>newPath\<close> when it
  is set and \<^verbatim>\<open>path\<close> otherwise.
\<close>

definition cd :: "string \<Rightarrow> sys \<Rightarrow> sys" where
  "cd path s =
     (let newPath = (if path = ''~'' then home_env s else None);
          tilde_user = (length path \<ge> 2 \<and> path ! 0 = CHR ''~'' \<and> path ! 1 \<noteq> CHR ''/'');
          user = takeWhile (\<lambda>ch. ch \<noteq> CHR ''/'') (tl path)
      in if path = ''~'' \<and> newPath = None
         then fprintf_stderr ''Error while reading the HOME environment variable'' s
         else if tilde_user \<and> length user \<ge> BUFLEN then s\<lparr>crashed := True\<rparr>
         else if tilde_user \<and> passwd s user = None
         then fprintf_stderr (''This user does not exist'' @ [newline]) s
         else
           (case sys_chdir (case (if tilde_user then passwd s user else newPath) of
                              Some p \<Rightarrow> p | None \<Rightarrow> path) s of
              (status, s1) \<Rightarrow>
                if status = -1 then perror ''Failed to set working directory'' s1
                else if status \<noteq> 0
                then fprintf_stderr (''Failed to set working directory with error '' @ fmt_d status) s1
                else s1))"

subsection \<open>\<^verbatim>\<open>execute_line\<close> (lines 184--199)\<close>

definition is_cd :: "cmd \<Rightarrow> bool" where
  "is_cd c = (n_args c = 2 \<and> args c ! 0 = ''cd'')"

text \<open>
  The body of the loop, on the loop's variables \<^verbatim>\<open>currPipe\<close> and the state; \<open>None\<close> when
  \<^verbatim>\<open>execute_command\<close> does not return.
\<close>

definition line_step :: "line \<Rightarrow> nat \<Rightarrow> int \<times> sys \<Rightarrow> (int \<times> sys) option" where
  "line_step line i st =
     (case st of (currPipe, s) \<Rightarrow>
        if is_cd (cmds line ! i) then Some (currPipe, cd (args (cmds line ! i) ! 1) s)
        else execute_command line (cmds line ! i) i currPipe s)"

text \<open>
  \<^verbatim>\<open>for (size_t i = 0; i < line->n_cmds; ++i)\<close>, from \<^verbatim>\<open>currPipe = -1\<close>; a pass that does
  not return ends the loop with \<open>None\<close>.
\<close>

definition line_loop :: "line \<Rightarrow> nat list \<Rightarrow> int \<times> sys \<Rightarrow> (int \<times> sys) option" where
  "line_loop line idxs st =
     fold (\<lambda>i r. case r of None \<Rightarrow> None | Some st1 \<Rightarrow> line_step line i st1) idxs (Some st)"

definition execute_line :: "line \<Rightarrow> sys \<Rightarrow> sys option" where
  "execute_line line s = map_option snd (line_loop line [0..<n_cmds line] (-1, s))"

subsection \<open>The flush at the top of the main loop (lines 225--230)\<close>

text \<open>
  \<^verbatim>\<open>if (strlen(endstatus) > 0) { fprintf(stderr, "%s", endstatus);
  for (int i = 0; i < ENDSTATUS_BUF_LEN; ++i) endstatus[i] = '\0'; }\<close>

  \<^verbatim>\<open>SIGCHLD\<close> is not blocked anywhere in the shell, so the handler can run between any two
  steps of this code.  A termination turns a child of the table into one that can be
  collected; when children terminate, the signal is raised and the handler runs to its
  end before the interrupted code goes on.
\<close>

definition child_terminates :: "int \<times> wstatus \<Rightarrow> sys \<Rightarrow> sys" where
  "child_terminates e s =
     s\<lparr>children := map (\<lambda>c. if fst c = fst e \<and> snd c = None then (fst c, Some (snd e)) else c)
                       (children s)\<rparr>"

definition sigchld :: "(int \<times> wstatus) list \<Rightarrow> sys \<Rightarrow> sys option" where
  "sigchld evs s = (if evs = [] then Some s else sigchld_handler (fold child_terminates evs s))"

text \<open>
  The steps are numbered: 0 is the test, 1 the \<^verbatim>\<open>fprintf\<close>, \<open>2 + i\<close> the assignment to
  \<^verbatim>\<open>endstatus[i]\<close>.  \<open>sched k\<close> lists the children that terminate just before step \<open>k\<close>
  (none: no signal there).
\<close>

function clear_loop :: "(nat \<Rightarrow> (int \<times> wstatus) list) \<Rightarrow> nat \<Rightarrow> sys \<Rightarrow> sys option" where
  "clear_loop sched i s =
     (if i < ENDSTATUS_BUF_LEN
      then (case sigchld (sched (2 + i)) s of
              None \<Rightarrow> None
            | Some s1 \<Rightarrow>
                clear_loop sched (i + 1)
                  (if i < length (endstatus s1) then s1\<lparr>endstatus := (endstatus s1)[i := NUL]\<rparr>
                   else s1\<lparr>crashed := True\<rparr>))
      else Some s)"
  by pat_completeness auto
termination
  by (relation "measure (\<lambda>(sched, i, s). ENDSTATUS_BUF_LEN - i)") auto

declare clear_loop.simps [simp del]

definition flush :: "(nat \<Rightarrow> (int \<times> wstatus) list) \<Rightarrow> sys \<Rightarrow> sys option" where
  "flush sched s =
     (case sigchld (sched 0) s of
        None \<Rightarrow> None
      | Some s0 \<Rightarrow>
          (case strlen (endstatus s0) of
             None \<Rightarrow> Some (s0\<lparr>crashed := True\<rparr>)
           | Some n \<Rightarrow>
               if n > 0
               then (case sigchld (sched 1) s0 of
                       None \<Rightarrow> None
                     | Some s1 \<Rightarrow>
                         clear_loop sched 0 (fprintf_stderr (cstr (endstatus s1)) s1))
               else Some s0))"

subsection \<open>A start state\<close>

text \<open>
  The shell after the start-up code of \<^verbatim>\<open>main\<close> (line 203: the array comes zeroed from
  \<^verbatim>\<open>calloc\<close>), started on a terminal in a small system: the null device exists, every
  program can be loaded and ends with status 0, sixty-four processes can be created, and a
  child that the shell waits for is collected by that wait.
\<close>

definition boot :: sys where
  "boot =
     \<lparr>fds = [Some Tty, Some Tty, Some Tty],
      endstatus = replicate ENDSTATUS_BUF_LEN NUL,
      cwd = ''/home/user'',
      diag = [],
      spawned = [],
      children = [],
      waited = [],
      crashed = False,
      files = (\<lambda>p. if p = ''/dev/null'' then Some NullDevice else None),
      next_pid = 1000,
      next_pipe = 0,
      max_forks = 64,
      fate = (\<lambda>p. Exited 0),
      handler_first = (\<lambda>p. False),
      programs = (\<lambda>p. True),
      directories = (\<lambda>p. p = ''/tmp'' \<or> p = ''/home/user''),
      home_env = Some ''/home/user'',
      passwd = (\<lambda>u. if u = ''user'' then Some ''/home/user'' else None),
      umask = 0x12,
      junk_int = 0,
      junk_stat = Exited 0,
      junk_mode = 0\<rparr>"

subsection \<open>Notions used in the statements\<close>

text \<open>
  The state in which the child of a stage starts (after \<^verbatim>\<open>pipe\<close> and \<^verbatim>\<open>fork\<close>), the value
  of \<^verbatim>\<open>pipes\<close> there, the child of the stage as it stands at \<^verbatim>\<open>execvp\<close>, and the files it
  leaves.
\<close>

definition forked :: "line \<Rightarrow> nat \<Rightarrow> sys \<Rightarrow> sys" where
  "forked l i s =
     (if is_last l i then s else s\<lparr>fds := pipe_table (fds s) (next_pipe s), next_pipe := next_pipe s + 1\<rparr>)
       \<lparr>next_pid := next_pid s + 1, max_forks := max_forks s - 1,
        children := children s @ [(next_pid s, None)]\<rparr>"

definition stage_pipes :: "line \<Rightarrow> nat \<Rightarrow> sys \<Rightarrow> int \<times> int" where
  "stage_pipes l i s =
     (if is_last l i then (junk_int s, junk_int s)
      else (int (pipe_r (fds s)), int (pipe_w (fds s) (next_pipe s))))"

definition stage_child :: "line \<Rightarrow> cmd \<Rightarrow> nat \<Rightarrow> int \<Rightarrow> sys \<Rightarrow> child" where
  "stage_child l cmd i cp s =
     fst (child_at_exec l cmd i cp (stage_pipes l i s) (next_pid s) (forked l i s))"

definition stage_files :: "line \<Rightarrow> cmd \<Rightarrow> nat \<Rightarrow> int \<Rightarrow> sys \<Rightarrow> string \<Rightarrow> node option" where
  "stage_files l cmd i cp s =
     files (snd (child_at_exec l cmd i cp (stage_pipes l i s) (next_pid s) (forked l i s)))"

text \<open>
  A descriptor on the null device: a file opened by a path that names the device.  Every
  read on it returns end-of-stream at once.
\<close>

definition on_null_device :: "(string \<Rightarrow> node option) \<Rightarrow> ofile option \<Rightarrow> bool" where
  "on_null_device fs d =
     (case d of Some (OpenFile path flags) \<Rightarrow> fs path = Some NullDevice | _ \<Rightarrow> False)"

subsection \<open>Example lines and states\<close>

text \<open>
  \<^verbatim>\<open>ls\<close>, \<^verbatim>\<open>ls | wc\<close>, \<^verbatim>\<open>cd /tmp | cat &\<close>, \<^verbatim>\<open>cd /tmp\<close>, \<^verbatim>\<open>ls >> out.txt\<close>, \<^verbatim>\<open>sleep 100 &\<close>,
  \<^verbatim>\<open>cat < missing.txt > locked.txt\<close> and \<^verbatim>\<open>ls | cd /tmp | wc\<close>, as the parser hands them
  over.
\<close>

definition ls_only :: line where
  "ls_only = \<lparr>cmds = [\<lparr>args = [''ls'']\<rparr>], file_input = None,
     file_output = None, file_output_append = False, background = False\<rparr>"

definition ls_wc :: line where
  "ls_wc = \<lparr>cmds = [\<lparr>args = [''ls'']\<rparr>, \<lparr>args = [''wc'']\<rparr>], file_input = None,
     file_output = None, file_output_append = False, background = False\<rparr>"

definition cd_then_cat_bg :: line where
  "cd_then_cat_bg = \<lparr>cmds = [\<lparr>args = [''cd'', ''/tmp'']\<rparr>, \<lparr>args = [''cat'']\<rparr>],
     file_input = None, file_output = None, file_output_append = False, background = True\<rparr>"

definition cd_tmp :: line where
  "cd_tmp = \<lparr>cmds = [\<lparr>args = [''cd'', ''/tmp'']\<rparr>], file_input = None,
     file_output = None, file_output_append = False, background = False\<rparr>"

definition ls_append :: line where
  "ls_append = \<lparr>cmds = [\<lparr>args = [''ls'']\<rparr>], file_input = None,
     file_output = Some ''out.txt'', file_output_append = True, background = False\<rparr>"

definition sleep_bg :: line where
  "sleep_bg = \<lparr>cmds = [\<lparr>args = [''sleep'', ''100'']\<rparr>], file_input = None,
     file_output = None, file_output_append = False, background = True\<rparr>"

definition cat_redirected :: line where
  "cat_redirected = \<lparr>cmds = [\<lparr>args = [''cat'']\<rparr>], file_input = Some ''missing.txt'',
     file_output = Some ''locked.txt'', file_output_append = False, background = False\<rparr>"

definition ls_cd_wc :: line where
  "ls_cd_wc = \<lparr>cmds = [\<lparr>args = [''ls'']\<rparr>, \<lparr>args = [''cd'', ''/tmp'']\<rparr>, \<lparr>args = [''wc'']\<rparr>],
     file_input = None, file_output = None, file_output_append = False, background = False\<rparr>"

text \<open>
  The start state with a file \<^verbatim>\<open>locked.txt\<close> that its owner may read but not write
  (mode 0444).
\<close>

definition boot_locked :: sys where
  "boot_locked = boot\<lparr>files := (files boot)(''locked.txt'' \<mapsto> Regular ''keep'' 0x124)\<rparr>"

text \<open>
  The start state in a system where the end of a child is notified before the shell's
  blocking wait has collected the child it waits for, and where the uninitialised
  \<^verbatim>\<open>stat\<close> of \<^verbatim>\<open>execute_command\<close> holds the status of a process killed by signal 9.
\<close>

definition handler_runs_first :: sys where
  "handler_runs_first = boot\<lparr>handler_first := (\<lambda>p. True), junk_stat := Signaled 9\<rparr>"

text \<open>
  The shell just before a flush: process 1000 has ended and was recorded, the background
  process 1001 still runs.  Process 1001 ends either before the test of the
  flush (\<open>early_signal\<close>) or between the \<^verbatim>\<open>fprintf\<close> and the first assignment of the
  clearing loop (\<open>late_signal\<close>).
\<close>

definition before_flush :: sys where
  "before_flush = (record_end (Exited 0) 1000 boot)\<lparr>children := [(1001, None)]\<rparr>"

definition early_signal :: "nat \<Rightarrow> (int \<times> wstatus) list" where
  "early_signal k = (if k = 0 then [(1001, Exited 0)] else [])"

definition late_signal :: "nat \<Rightarrow> (int \<times> wstatus) list" where
  "late_signal k = (if k = 2 then [(1001, Exited 0)] else [])"

section \<open>Properties of the status report buffer\<close>

lemma digit_char_in: "digit_char d \<in> set ''0123456789''"
  unfolding digit_char_def by (rule nth_mem) simp

lemma digit_char_not_NUL: "digit_char d \<noteq> NUL"
  using digit_char_in [of d] by (auto simp: NUL_def)

lemma digit_char_not_newline: "digit_char d \<noteq> newline"
  using digit_char_in [of d] by (auto simp: newline_def)

lemma decimal_chars: "c \<in> set (decimal n) \<Longrightarrow> c \<noteq> NUL \<and> c \<noteq> newline"
proof (induction n rule: decimal.induct)
  case (1 n)
  then show ?case
    by (subst (asm) (2) decimal.simps)
      (auto simp: digit_char_not_NUL digit_char_not_newline split: if_splits)
qed

lemma fmt_d_chars: "c \<in> set (fmt_d i) \<Longrightarrow> c \<noteq> NUL \<and> c \<noteq> newline"
  by (auto simp: fmt_d_def NUL_def newline_def dest: decimal_chars split: if_splits)

lemma NUL_notin_exit_line: "NUL \<notin> set (exit_line pid n)"
  using fmt_d_chars [of NUL] by (auto simp: exit_line_def) (simp_all add: NUL_def newline_def)

lemma NUL_notin_signal_line: "NUL \<notin> set (signal_line pid n)"
  using fmt_d_chars [of NUL] by (auto simp: signal_line_def) (simp_all add: NUL_def newline_def)

lemma NUL_notin_status_line: "NUL \<notin> set (status_line stat pid)"
  by (cases stat) (simp_all add: status_line_def NUL_notin_exit_line NUL_notin_signal_line)

lemma count_fmt_d_newline: "count_list (fmt_d i) newline = 0"
  using fmt_d_chars [of newline i] by (auto simp: count_list_0_iff)

lemma exit_line_one_newline: "count_list (exit_line pid n) newline = 1"
  by (simp add: exit_line_def count_fmt_d_newline) (simp add: newline_def)

lemma signal_line_one_newline: "count_list (signal_line pid n) newline = 1"
  by (simp add: signal_line_def count_fmt_d_newline) (simp add: newline_def)


lemma cstr_length_less: "NUL \<in> set buf \<Longrightarrow> length (cstr buf) < length buf"
  unfolding cstr_def by (induction buf) auto

lemma take_cstr: "take (length (cstr buf)) buf = cstr buf"
  unfolding cstr_def by (induction buf) auto

lemma cstr_append_NUL: "NUL \<notin> set s \<Longrightarrow> cstr (s @ NUL # rest) = s"
  unfolding cstr_def by (induction s) auto

lemma NUL_notin_cstr: "NUL \<notin> set (cstr buf)"
  unfolding cstr_def by (induction buf) auto

lemma size_sub_small: "b \<le> a \<Longrightarrow> a < 2 ^ 64 \<Longrightarrow> size_sub a b = a - b"
proof -
  assume le: "b \<le> a" and lt: "a < 2 ^ 64"
  have e: "int a - int b = int (a - b)" using le by simp
  have "int (a - b) < 2 ^ 64" using lt by simp
  then have "int (a - b) mod 2 ^ 64 = int (a - b)" by simp
  then show ?thesis unfolding size_sub_def e by simp
qed

lemma append_status_ok:
  assumes ok: "buf_ok buf" and s: "NUL \<notin> set s"
  shows "\<exists>b. append_status s buf = Some b \<and> buf_ok b \<and>
             cstr b = take (ENDSTATUS_BUF_LEN - 1) (cstr buf @ s)"
proof -
  define n where "n = length (cstr buf)"
  define k where "k = ENDSTATUS_BUF_LEN - n - 1"
  from ok have len: "length buf = ENDSTATUS_BUF_LEN" and nul: "NUL \<in> set buf"
    by (simp_all add: buf_ok_def)
  have n_lt: "n < ENDSTATUS_BUF_LEN"
    using cstr_length_less [OF nul] len by (simp add: n_def)
  have sl: "strlen buf = Some n"
    by (simp add: strlen_def nul n_def)
  have sz: "size_sub ENDSTATUS_BUF_LEN n = ENDSTATUS_BUF_LEN - n"
    using n_lt by (intro size_sub_small) (simp_all add: ENDSTATUS_BUF_LEN_def)
  define b where "b = take n buf @ (take k s @ [NUL]) @ drop (n + length (take k s @ [NUL])) buf"
  have fits: "n + length (take k s @ [NUL]) \<le> length buf"
    using n_lt len by (simp add: k_def)
  have res: "append_status s buf = Some b"
    using n_lt fits by (simp add: append_status_def sl sz snprintf_def Let_def b_def k_def)
  have b_eq: "b = (cstr buf @ take k s) @ NUL # drop (n + length (take k s @ [NUL])) buf"
    by (simp add: b_def n_def take_cstr)
  have nn: "NUL \<notin> set (cstr buf @ take k s)"
    using s NUL_notin_cstr [of buf] by (auto dest: in_set_takeD)
  have c: "cstr b = cstr buf @ take k s"
    unfolding b_eq by (rule cstr_append_NUL [OF nn])
  have "length b = ENDSTATUS_BUF_LEN"
    using fits len by (simp add: b_def)
  moreover have "NUL \<in> set b" by (simp add: b_def)
  ultimately have "buf_ok b" by (simp add: buf_ok_def)
  moreover have "take (ENDSTATUS_BUF_LEN - 1) (cstr buf @ s) = cstr buf @ take k s"
    using n_lt by (simp add: n_def k_def)
  ultimately show ?thesis using res c by simp
qed


lemma display_process_end_ok:
  assumes ok: "buf_ok buf"
  shows "\<exists>b. display_process_end stat pid buf = Some b \<and> buf_ok b \<and>
             cstr b = take (ENDSTATUS_BUF_LEN - 1) (cstr buf @ status_line stat pid)"
proof (cases stat)
  case (Exited n)
  with append_status_ok [OF ok NUL_notin_exit_line, of pid "int n"] show ?thesis
    by (auto simp: display_process_end_def status_line_def)
next
  case (Signaled n)
  with append_status_ok [OF ok NUL_notin_signal_line, of pid "int n"] show ?thesis
    by (auto simp: display_process_end_def status_line_def)
next
  case (Stopped n)
  with ok cstr_length_less [of buf] show ?thesis
    by (simp add: display_process_end_def status_line_def buf_ok_def)
next
  case Continued
  with ok cstr_length_less [of buf] show ?thesis
    by (simp add: display_process_end_def status_line_def buf_ok_def)
qed

lemma take_take_append:
  "take k (take k (xs @ ys) @ zs) = take k (xs @ ys @ zs)"
  by (cases "k \<le> length (xs @ ys)") (simp_all add: min_def)

lemma display_all_ok:
  "buf_ok buf \<Longrightarrow>
   \<exists>b. display_all es buf = Some b \<and> buf_ok b \<and>
       cstr b = take (ENDSTATUS_BUF_LEN - 1)
                  (cstr buf @ concat (map (\<lambda>(stat, pid). status_line stat pid) es))"
proof (induction es arbitrary: buf)
  case Nil
  then show ?case
    using cstr_length_less [of buf] by (simp add: buf_ok_def)
next
  case (Cons e es)
  obtain stat pid where e: "e = (stat, pid)" by (cases e)
  from display_process_end_ok [OF Cons.prems, of stat pid]
  obtain b1 where b1: "display_process_end stat pid buf = Some b1" "buf_ok b1"
    "cstr b1 = take (ENDSTATUS_BUF_LEN - 1) (cstr buf @ status_line stat pid)"
    by blast
  from Cons.IH [OF b1(2)]
  obtain b where b: "display_all es b1 = Some b" "buf_ok b"
    "cstr b = take (ENDSTATUS_BUF_LEN - 1)
                (cstr b1 @ concat (map (\<lambda>(stat, pid). status_line stat pid) es))"
    by blast
  let ?k = "ENDSTATUS_BUF_LEN - 1"
  let ?rest = "concat (map (\<lambda>(stat, pid). status_line stat pid) es)"
  have "cstr b = take ?k (take ?k (cstr buf @ status_line stat pid) @ ?rest)"
    by (simp only: b(3) b1(3))
  also have "\<dots> = take ?k (cstr buf @ status_line stat pid @ ?rest)"
    by (rule take_take_append)
  finally have "cstr b = take ?k (cstr buf @ concat (map (\<lambda>(stat, pid). status_line stat pid) (e # es)))"
    by (simp only: e list.map concat.simps prod.case)
  moreover have "display_all (e # es) buf = Some b"
    by (simp add: e b1(1) b(1))
  ultimately show ?case
    using b(2) by blast
qed

lemma full_buffer_unchanged:
  assumes ok: "buf_ok buf" and full: "length (cstr buf) = ENDSTATUS_BUF_LEN - 1"
  shows "display_process_end stat pid buf = Some buf"
proof -
  from ok have len: "length buf = ENDSTATUS_BUF_LEN" and nul: "NUL \<in> set buf"
    by (simp_all add: buf_ok_def)
  have sl: "strlen buf = Some (ENDSTATUS_BUF_LEN - 1)"
    by (simp add: strlen_def nul full)
  have sz: "size_sub ENDSTATUS_BUF_LEN (ENDSTATUS_BUF_LEN - 1) = 1"
    by (simp add: size_sub_def ENDSTATUS_BUF_LEN_def)
  define rest where "rest = dropWhile (\<lambda>c. c \<noteq> NUL) buf"
  have split: "buf = cstr buf @ rest"
    by (simp add: cstr_def rest_def)
  have "length buf = length (cstr buf) + length rest"
    by (subst split) simp
  then have l1: "length rest = 1"
    using full len by (simp add: ENDSTATUS_BUF_LEN_def)
  then have ne: "rest \<noteq> []" by auto
  have "hd rest = NUL"
    using hd_dropWhile [of "\<lambda>c. c \<noteq> NUL" buf] ne by (simp add: rest_def)
  with l1 have "rest = [NUL]"
    by (cases rest) auto
  with split have shape: "buf = cstr buf @ [NUL]" by simp
  have tk: "take (ENDSTATUS_BUF_LEN - 1) buf = cstr buf"
    using take_cstr [of buf] by (simp add: full)
  have sn: "snprintf buf (ENDSTATUS_BUF_LEN - 1) 1 s = Some buf" for s
  proof -
    have "drop ENDSTATUS_BUF_LEN buf = []"
      using len by simp
    then have "take (ENDSTATUS_BUF_LEN - 1) buf @ [NUL] @ drop ENDSTATUS_BUF_LEN buf = buf"
      using shape by (simp only: tk append_Nil2)
    then show ?thesis
      using len by (simp add: snprintf_def ENDSTATUS_BUF_LEN_def)
  qed
  have ap: "append_status s buf = Some buf" for s
    by (simp only: append_status_def sl sz option.case sn)
  show ?thesis
    by (simp add: display_process_end_def ap)
qed

lemma buf_ok_zeroed: "buf_ok (replicate ENDSTATUS_BUF_LEN NUL)"
  by (simp add: buf_ok_def ENDSTATUS_BUF_LEN_def)

lemma cstr_zeroed: "cstr (replicate n NUL) = []"
  by (simp add: cstr_def takeWhile_replicate)

lemma exit_line_1000_0:
  "exit_line 1000 0 = ''PID 1000 finished with exit status 0'' @ [newline]"
  by (simp add: exit_line_def fmt_d_def decimal.simps digit_char_def)

text \<open>
  Claim C7.  For every sequence of terminations recorded into a well-formed array, no call
  touches memory outside the array (the result is \<open>Some\<close>), the array keeps its
  \<^verbatim>\<open>ENDSTATUS_BUF_LEN\<close> bytes, the text it holds stays shorter than that, and the text is
  the old text followed by the status lines, cut off where the array ends: what does not
  fit is dropped silently.
\<close>

theorem buffer_within_capacity:
  assumes "buf_ok buf"
  shows "\<exists>b. display_all es buf = Some b \<and> length b = ENDSTATUS_BUF_LEN \<and>
             length (cstr b) < ENDSTATUS_BUF_LEN \<and>
             cstr b = take (ENDSTATUS_BUF_LEN - 1)
                        (cstr buf @ concat (map (\<lambda>(stat, pid). status_line stat pid) es))"
proof -
  from display_all_ok [OF assms, of es]
  obtain b where b: "display_all es buf = Some b" "buf_ok b"
    "cstr b = take (ENDSTATUS_BUF_LEN - 1)
                (cstr buf @ concat (map (\<lambda>(stat, pid). status_line stat pid) es))"
    by blast
  from b(2) have "length b = ENDSTATUS_BUF_LEN" "length (cstr b) < ENDSTATUS_BUF_LEN"
    using cstr_length_less [of b] by (simp_all add: buf_ok_def)
  with b show ?thesis by blast
qed

theorem buffer_within_capacity_witness:
  "buf_ok (replicate ENDSTATUS_BUF_LEN NUL) \<and>
   (\<exists>b. display_all [(Exited 0, 1000), (Signaled 9, 1001)] (replicate ENDSTATUS_BUF_LEN NUL) = Some b \<and>
        length b = 4096 \<and>
        cstr b = ''PID 1000 finished with exit status 0'' @ [newline] @
                 ''PID 1001 finished with signal 9'' @ [newline])"
proof -
  have ok: "buf_ok (replicate ENDSTATUS_BUF_LEN NUL)" by (rule buf_ok_zeroed)
  from buffer_within_capacity [OF ok, of "[(Exited 0, 1000), (Signaled 9, 1001)]"]
  obtain b where b: "display_all [(Exited 0, 1000), (Signaled 9, 1001)] (replicate ENDSTATUS_BUF_LEN NUL) = Some b"
    "length b = ENDSTATUS_BUF_LEN"
    "cstr b = take (ENDSTATUS_BUF_LEN - 1) (cstr (replicate ENDSTATUS_BUF_LEN NUL) @
       concat (map (\<lambda>(stat, pid). status_line stat pid) [(Exited 0, 1000), (Signaled 9, 1001)]))"
    by blast
  have "cstr b = ''PID 1000 finished with exit status 0'' @ [newline] @
                 ''PID 1001 finished with signal 9'' @ [newline]"
    unfolding b(3) cstr_zeroed
    by (simp add: status_line_def exit_line_def signal_line_def fmt_d_def
        decimal.simps digit_char_def ENDSTATUS_BUF_LEN_def)
  moreover have "length b = 4096"
    using b(2) by (simp add: ENDSTATUS_BUF_LEN_def)
  ultimately show ?thesis
    using ok b(1) by blast
qed

text \<open>
  Claim C6, as amended.  A recorded termination appends the text of its status line as far
  as the array has room for it; when the whole line fits, exactly that line is appended.
  The line of a child that exited is \<^verbatim>\<open>PID <pid> finished with exit status <n>\<close>, that of
  a child killed by a signal is \<^verbatim>\<open>PID <pid> finished with signal <n>\<close>, each one line
  ended by a newline.
\<close>

theorem one_status_line_when_it_fits:
  assumes "buf_ok buf"
  shows "\<exists>b. display_process_end stat pid buf = Some b \<and>
             cstr b = take (ENDSTATUS_BUF_LEN - 1) (cstr buf @ status_line stat pid) \<and>
             (length (cstr buf) + length (status_line stat pid) < ENDSTATUS_BUF_LEN \<longrightarrow>
                cstr b = cstr buf @ status_line stat pid) \<and>
             (\<forall>n. stat = Exited n \<longrightarrow>
                status_line stat pid =
                  ''PID '' @ fmt_d pid @ '' finished with exit status '' @ fmt_d (int n) @ [newline] \<and>
                count_list (status_line stat pid) newline = 1) \<and>
             (\<forall>n. stat = Signaled n \<longrightarrow>
                status_line stat pid =
                  ''PID '' @ fmt_d pid @ '' finished with signal '' @ fmt_d (int n) @ [newline] \<and>
                count_list (status_line stat pid) newline = 1)"
proof -
  from display_process_end_ok [OF assms, of stat pid]
  obtain b where b: "display_process_end stat pid buf = Some b"
    "cstr b = take (ENDSTATUS_BUF_LEN - 1) (cstr buf @ status_line stat pid)"
    by blast
  have fit: "cstr b = cstr buf @ status_line stat pid"
    if "length (cstr buf) + length (status_line stat pid) < ENDSTATUS_BUF_LEN"
    using that b(2) by simp
  have ex: "status_line (Exited n) pid =
      ''PID '' @ fmt_d pid @ '' finished with exit status '' @ fmt_d (int n) @ [newline]" for n
    by (simp add: status_line_def exit_line_def)
  have sg: "status_line (Signaled n) pid =
      ''PID '' @ fmt_d pid @ '' finished with signal '' @ fmt_d (int n) @ [newline]" for n
    by (simp add: status_line_def signal_line_def)
  have c1: "count_list (status_line (Exited n) pid) newline = 1" for n
    by (simp add: status_line_def exit_line_one_newline)
  have c2: "count_list (status_line (Signaled n) pid) newline = 1" for n
    by (simp add: status_line_def signal_line_one_newline)
  show ?thesis
  proof (intro exI [of _ b] conjI allI impI)
    show "display_process_end stat pid buf = Some b" by (fact b(1))
    show "cstr b = take (ENDSTATUS_BUF_LEN - 1) (cstr buf @ status_line stat pid)" by (fact b(2))
    show "cstr b = cstr buf @ status_line stat pid"
      if "length (cstr buf) + length (status_line stat pid) < ENDSTATUS_BUF_LEN"
      using that by (rule fit)
    show "status_line stat pid =
        ''PID '' @ fmt_d pid @ '' finished with exit status '' @ fmt_d (int n) @ [newline]"
      if "stat = Exited n" for n
      unfolding that by (rule ex)
    show "count_list (status_line stat pid) newline = 1" if "stat = Exited n" for n
      unfolding that by (rule c1)
    show "status_line stat pid =
        ''PID '' @ fmt_d pid @ '' finished with signal '' @ fmt_d (int n) @ [newline]"
      if "stat = Signaled n" for n
      unfolding that by (rule sg)
    show "count_list (status_line stat pid) newline = 1" if "stat = Signaled n" for n
      unfolding that by (rule c2)
  qed
qed

theorem one_status_line_witness:
  "buf_ok (replicate ENDSTATUS_BUF_LEN NUL) \<and>
   (\<exists>b. display_process_end (Exited 3) 1234 (replicate ENDSTATUS_BUF_LEN NUL) = Some b \<and>
        cstr b = ''PID 1234 finished with exit status 3'' @ [newline])"
proof -
  have ok: "buf_ok (replicate ENDSTATUS_BUF_LEN NUL)" by (rule buf_ok_zeroed)
  have ln: "status_line (Exited 3) 1234 = ''PID 1234 finished with exit status 3'' @ [newline]"
    by (simp add: status_line_def exit_line_def fmt_d_def decimal.simps digit_char_def)
  from one_status_line_when_it_fits [OF ok, of "Exited 3" 1234]
  obtain b where b: "display_process_end (Exited 3) 1234 (replicate ENDSTATUS_BUF_LEN NUL) = Some b"
    "length (cstr (replicate ENDSTATUS_BUF_LEN NUL)) + length (status_line (Exited 3) 1234)
       < ENDSTATUS_BUF_LEN \<longrightarrow>
     cstr b = cstr (replicate ENDSTATUS_BUF_LEN NUL) @ status_line (Exited 3) 1234"
    by blast
  have "length (cstr (replicate ENDSTATUS_BUF_LEN NUL)) + length (status_line (Exited 3) 1234)
       < ENDSTATUS_BUF_LEN"
    unfolding cstr_zeroed ln by (simp add: ENDSTATUS_BUF_LEN_def)
  with b(2) have "cstr b = ''PID 1234 finished with exit status 3'' @ [newline]"
    unfolding cstr_zeroed ln by simp
  with ok b(1) show ?thesis by blast
qed

text \<open>
  Claim C6 as stated fails: after 111 terminations of 37 characters each since the last
  flush the array is full, and the next recorded termination leaves it as it was: no status
  line is appended for that child.
\<close>

theorem status_line_dropped_when_full:
  "display_all (replicate 111 (Exited 0, 1000)) (replicate ENDSTATUS_BUF_LEN NUL) \<noteq> None \<and>
   Option.bind (display_all (replicate 111 (Exited 0, 1000)) (replicate ENDSTATUS_BUF_LEN NUL))
     (display_process_end (Exited 0) 1000) =
   display_all (replicate 111 (Exited 0, 1000)) (replicate ENDSTATUS_BUF_LEN NUL)"
proof -
  from display_all_ok [OF buf_ok_zeroed, of "replicate 111 (Exited 0, 1000)"]
  obtain b where b: "display_all (replicate 111 (Exited 0, 1000)) (replicate ENDSTATUS_BUF_LEN NUL) = Some b"
    "buf_ok b"
    "cstr b = take (ENDSTATUS_BUF_LEN - 1)
       (cstr (replicate ENDSTATUS_BUF_LEN NUL) @
        concat (map (\<lambda>(stat, pid). status_line stat pid) (replicate 111 (Exited 0, 1000))))"
    by blast
  have "length (concat (map (\<lambda>(stat, pid). status_line stat pid) (replicate 111 (Exited 0, 1000)))) = 111 * 37"
    by (simp add: length_concat sum_list_replicate status_line_def exit_line_1000_0)
  then have "length (cstr b) = ENDSTATUS_BUF_LEN - 1"
    by (simp add: b(3) cstr_zeroed ENDSTATUS_BUF_LEN_def)
  from full_buffer_unchanged [OF b(2) this]
  have "display_process_end (Exited 0) 1000 b = Some b" .
  with b(1) show ?thesis by simp
qed

section \<open>Properties of the \<^verbatim>\<open>SIGCHLD\<close> handler\<close>

lemma record_end_frame [simp]:
  "fds (record_end st p s) = fds s"
  "cwd (record_end st p s) = cwd s"
  "diag (record_end st p s) = diag s"
  "spawned (record_end st p s) = spawned s"
  "children (record_end st p s) = children s"
  "waited (record_end st p s) = waited s"
  "files (record_end st p s) = files s"
  "next_pid (record_end st p s) = next_pid s"
  "next_pipe (record_end st p s) = next_pipe s"
  "max_forks (record_end st p s) = max_forks s"
  "fate (record_end st p s) = fate s"
  "handler_first (record_end st p s) = handler_first s"
  "programs (record_end st p s) = programs s"
  "directories (record_end st p s) = directories s"
  "home_env (record_end st p s) = home_env s"
  "passwd (record_end st p s) = passwd s"
  "umask (record_end st p s) = umask s"
  "junk_int (record_end st p s) = junk_int s"
  "junk_stat (record_end st p s) = junk_stat s"
  "junk_mode (record_end st p s) = junk_mode s"
  by (simp_all add: record_end_def split: option.split)

lemma first_terminated_None_iff:
  "first_terminated cs = None \<longleftrightarrow> (\<forall>e \<in> set cs. snd e = None)"
  by (induction cs rule: first_terminated.induct) auto

lemma first_terminated_mem:
  "first_terminated cs = Some (p, w) \<Longrightarrow> (p, Some w) \<in> set cs"
  by (induction cs rule: first_terminated.induct) auto

lemma remove_child_keeps_running:
  "(q, None) \<in> set cs \<Longrightarrow> (q, None) \<in> set (remove_child p cs)"
  by (induction cs) auto

lemma remove_child_subset: "set (remove_child p cs) \<subseteq> set cs"
  by (induction cs) (auto split: if_splits)

lemma waitpid_nohang_running:
  assumes "has_running s" and "waitpid_nohang s = (pid, stat, s1)"
  shows "pid \<noteq> -1 \<and> has_running s1"
proof -
  from assms(1) obtain q where q: "(q, None) \<in> set (children s)"
    and pos: "\<forall>e \<in> set (children s). fst e \<noteq> -1"
    by (auto simp: has_running_def)
  from q have ne: "children s \<noteq> []" by auto
  show ?thesis
  proof (cases "first_terminated (children s)")
    case None
    with assms ne show ?thesis by (simp add: waitpid_nohang_def)
  next
    case (Some e)
    obtain p w where e: "e = (p, w)" by (cases e)
    from first_terminated_mem [of "children s" p w] Some e pos have "p \<noteq> -1"
      by fastforce
    moreover have "has_running s1"
      using assms(2) ne Some e q pos remove_child_keeps_running [OF q, of p]
        remove_child_subset [of p "children s"]
      by (auto simp: waitpid_nohang_def has_running_def)
    ultimately show ?thesis
      using assms(2) ne Some e by (auto simp: waitpid_nohang_def)
  qed
qed

lemma has_running_record_end: "has_running (record_end st p s) = has_running s"
  by (simp add: has_running_def)

lemma handler_spins:
  assumes "has_running s"
  shows "sigchld_handler s = None"
proof (rule ccontr)
  assume "sigchld_handler s \<noteq> None"
  then obtain r where r: "sigchld_handler s = Some r" by auto
  have "\<not> has_running s"
  proof (rule sigchld_handler.raw_induct [where P = "\<lambda>s r. \<not> has_running s", OF _ r])
    fix f :: "sys \<Rightarrow> sys option" and s0 r0
    assume IH: "\<And>x y. f x = Some y \<Longrightarrow> \<not> has_running x"
      and body: "(case waitpid_nohang s0 of
            (pid, stat, s1) \<Rightarrow>
              let s2 = if 0 < pid
                       then record_end (case stat of None \<Rightarrow> junk_stat s1 | Some w \<Rightarrow> w) pid s1
                       else s1
              in if pid \<noteq> - 1 then f s2 else Some s2) = Some r0"
    show "\<not> has_running s0"
    proof
      assume run: "has_running s0"
      obtain pid stat s1 where w: "waitpid_nohang s0 = (pid, stat, s1)"
        by (cases "waitpid_nohang s0")
      from waitpid_nohang_running [OF run w] have ne: "pid \<noteq> -1" and run1: "has_running s1"
        by simp_all
      let ?s2 = "if pid > 0 then record_end (case stat of Some w \<Rightarrow> w | None \<Rightarrow> junk_stat s1) pid s1 else s1"
      from body w ne have "f ?s2 = Some r0"
        by (simp add: Let_def)
      from IH [OF this] have "\<not> has_running ?s2" .
      with run1 show False
        by (simp add: has_running_record_end split: if_splits)
    qed
  qed
  with assms show False by simp
qed


lemma record_end_children_upd:
  "record_end w p (s\<lparr>children := cs\<rparr>) = (record_end w p s)\<lparr>children := cs\<rparr>"
  by (simp add: record_end_def split: option.split)

text \<open>
  When every child of the table has terminated, the handler collects them all, one status
  line each in the order of the table, and returns with an empty table.
\<close>

lemma handler_returns:
  assumes "\<forall>e \<in> set (children s). snd e \<noteq> None \<and> 0 < fst e" and "buf_ok (endstatus s)"
  shows "\<exists>b. sigchld_handler s = Some (s\<lparr>endstatus := b, children := []\<rparr>) \<and>
             display_all (terminated (children s)) (endstatus s) = Some b \<and> buf_ok b"
  using assms
proof (induction "children s" arbitrary: s)
  case Nil
  from Nil(1) [symmetric] have "waitpid_nohang s = (-1, None, s)"
    by (simp add: waitpid_nohang_def)
  then have "sigchld_handler s = Some s"
    by (subst sigchld_handler.simps) simp
  moreover have "s\<lparr>endstatus := endstatus s, children := []\<rparr> = s"
    using Nil(1) [symmetric] by simp
  ultimately show ?case
    using Nil(1) [symmetric] Nil.prems(2) by simp
next
  case (Cons e cs)
  from Cons(2) [symmetric] Cons.prems(1) obtain p w where e: "e = (p, Some w)" and p: "0 < p"
    by (cases e) auto
  have ch: "children s = (p, Some w) # cs"
    using Cons(2) e by simp
  from display_process_end_ok [OF Cons.prems(2), of w p]
  obtain b1 where b1: "display_process_end w p (endstatus s) = Some b1" "buf_ok b1"
    by blast
  let ?s2 = "s\<lparr>endstatus := b1, children := cs\<rparr>"
  have wp: "waitpid_nohang s = (p, Some w, s\<lparr>children := cs\<rparr>)"
    by (simp add: waitpid_nohang_def ch)
  have re: "record_end w p (s\<lparr>children := cs\<rparr>) = ?s2"
    by (simp add: record_end_def b1)
  have step: "sigchld_handler s = sigchld_handler ?s2"
    using p by (subst sigchld_handler.simps) (simp add: wp re)
  have "\<exists>b. sigchld_handler ?s2 = Some (?s2\<lparr>endstatus := b, children := []\<rparr>) \<and>
             display_all (terminated (children ?s2)) (endstatus ?s2) = Some b \<and> buf_ok b"
    using Cons.prems(1) ch b1(2) by (intro Cons(1)) simp_all
  then obtain b where b: "sigchld_handler ?s2 = Some (?s2\<lparr>endstatus := b, children := []\<rparr>)"
    "display_all (terminated cs) b1 = Some b" "buf_ok b"
    by auto
  have "sigchld_handler s = Some (s\<lparr>endstatus := b, children := []\<rparr>)"
    using step b(1) by simp
  moreover have "display_all (terminated (children s)) (endstatus s) = Some b"
    by (simp add: ch b1(1) b(2))
  ultimately show ?case
    using b(3) by blast
qed

lemma record_end_waited_upd:
  "record_end w p (s\<lparr>waited := ws\<rparr>) = (record_end w p s)\<lparr>waited := ws\<rparr>"
  by (simp add: record_end_def split: option.split)

lemma record_end_text:
  assumes "buf_ok (endstatus s)"
  shows "buf_ok (endstatus (record_end st p s))"
    and "cstr (endstatus (record_end st p s)) =
           take (ENDSTATUS_BUF_LEN - 1) (cstr (endstatus s) @ status_line st p)"
proof -
  from display_process_end_ok [OF assms, of st p]
  obtain b where b: "display_process_end st p (endstatus s) = Some b" "buf_ok b"
    "cstr b = take (ENDSTATUS_BUF_LEN - 1) (cstr (endstatus s) @ status_line st p)"
    by blast
  have "endstatus (record_end st p s) = b"
    by (simp add: record_end_def b(1))
  with b show "buf_ok (endstatus (record_end st p s))"
    and "cstr (endstatus (record_end st p s)) =
           take (ENDSTATUS_BUF_LEN - 1) (cstr (endstatus s) @ status_line st p)"
    by simp_all
qed

text \<open>
  Whatever the handler does, it touches only the array, the table of children and the
  record of an access outside the array.
\<close>

lemma record_end_shape:
  "\<exists>b cr. record_end w p s = s\<lparr>endstatus := b, crashed := cr\<rparr>"
proof (cases "display_process_end w p (endstatus s)")
  case None
  then have "record_end w p s = s\<lparr>endstatus := endstatus s, crashed := True\<rparr>"
    by (simp add: record_end_def)
  then show ?thesis by blast
next
  case (Some b)
  then have "record_end w p s = s\<lparr>endstatus := b, crashed := crashed s\<rparr>"
    by (simp add: record_end_def)
  then show ?thesis by blast
qed

lemma waitpid_nohang_shape:
  "\<exists>cs. snd (snd (waitpid_nohang s)) = s\<lparr>children := cs\<rparr>"
proof (cases "children s = []")
  case True
  then have "snd (snd (waitpid_nohang s)) = s\<lparr>children := children s\<rparr>"
    by (simp add: waitpid_nohang_def)
  then show ?thesis by blast
next
  case False
  show ?thesis
  proof (cases "first_terminated (children s)")
    case None
    with False have "snd (snd (waitpid_nohang s)) = s\<lparr>children := children s\<rparr>"
      by (simp add: waitpid_nohang_def)
    then show ?thesis by blast
  next
    case (Some e)
    with False have "snd (snd (waitpid_nohang s)) =
        s\<lparr>children := remove_child (fst e) (children s)\<rparr>"
      by (cases e) (simp add: waitpid_nohang_def)
    then show ?thesis by blast
  qed
qed

lemma handler_frame:
  assumes "sigchld_handler s = Some s'"
  shows "\<exists>b cs cr. s' = s\<lparr>endstatus := b, children := cs, crashed := cr\<rparr>"
proof (rule sigchld_handler.raw_induct
    [where P = "\<lambda>s s'. \<exists>b cs cr. s' = s\<lparr>endstatus := b, children := cs, crashed := cr\<rparr>",
      OF _ assms])
  fix f :: "sys \<Rightarrow> sys option" and s0 r0
  assume IH: "\<And>x y. f x = Some y \<Longrightarrow>
                \<exists>b cs cr. y = x\<lparr>endstatus := b, children := cs, crashed := cr\<rparr>"
    and body: "(case waitpid_nohang s0 of
            (pid, stat, s1) \<Rightarrow>
              let s2 = if 0 < pid
                       then record_end (case stat of None \<Rightarrow> junk_stat s1 | Some w \<Rightarrow> w) pid s1
                       else s1
              in if pid \<noteq> - 1 then f s2 else Some s2) = Some r0"
  obtain pid stat s1 where w: "waitpid_nohang s0 = (pid, stat, s1)"
    by (cases "waitpid_nohang s0")
  from waitpid_nohang_shape [of s0] w obtain cs1 where s1: "s1 = s0\<lparr>children := cs1\<rparr>"
    by auto
  define s2 where "s2 = (if 0 < pid
      then record_end (case stat of None \<Rightarrow> junk_stat s1 | Some w \<Rightarrow> w) pid s1 else s1)"
  have "\<exists>b cr. s2 = s1\<lparr>endstatus := b, crashed := cr\<rparr>"
  proof (cases "0 < pid")
    case True
    then show ?thesis
      using record_end_shape [of "case stat of None \<Rightarrow> junk_stat s1 | Some w \<Rightarrow> w" pid s1]
      by (simp add: s2_def)
  next
    case False
    then have "s2 = s1\<lparr>endstatus := endstatus s1, crashed := crashed s1\<rparr>"
      by (simp add: s2_def)
    then show ?thesis by blast
  qed
  then obtain b2 cr2 where "s2 = s1\<lparr>endstatus := b2, crashed := cr2\<rparr>"
    by blast
  then have s2: "s2 = s0\<lparr>endstatus := b2, children := cs1, crashed := cr2\<rparr>"
    by (simp add: s1)
  from body have r: "(if pid \<noteq> - 1 then f s2 else Some s2) = Some r0"
    unfolding w prod.case Let_def s2_def .
  show "\<exists>b cs cr. r0 = s0\<lparr>endstatus := b, children := cs, crashed := cr\<rparr>"
  proof (cases "pid = -1")
    case True
    with r have "r0 = s2" by simp
    with s2 show ?thesis by blast
  next
    case False
    with r have "f s2 = Some r0" by simp
    from IH [OF this] obtain b cs cr where
      "r0 = s2\<lparr>endstatus := b, children := cs, crashed := cr\<rparr>"
      by blast
    then have "r0 = s0\<lparr>endstatus := b, children := cs, crashed := cr\<rparr>"
      by (simp add: s2)
    then show ?thesis by blast
  qed
qed

text \<open>
  On a table with no running child the loop ends: every pass collects one child, until
  \<^verbatim>\<open>waitpid\<close> returns \<open>-1\<close>.
\<close>

lemma handler_ends:
  assumes "\<forall>e \<in> set (children s). snd e \<noteq> None"
  shows "\<exists>s'. sigchld_handler s = Some s'"
  using assms
proof (induction "children s" arbitrary: s)
  case Nil
  from Nil(1) [symmetric] have "waitpid_nohang s = (-1, None, s)"
    by (simp add: waitpid_nohang_def)
  then have "sigchld_handler s = Some s"
    by (subst sigchld_handler.simps) simp
  then show ?case by simp
next
  case (Cons e cs)
  from Cons(2) [symmetric] Cons.prems obtain p w where e: "e = (p, Some w)"
    by (cases e) auto
  have ch: "children s = (p, Some w) # cs"
    using Cons(2) e by simp
  have wp: "waitpid_nohang s = (p, Some w, s\<lparr>children := cs\<rparr>)"
    by (simp add: waitpid_nohang_def ch)
  define s2 where "s2 = (if 0 < p then record_end w p (s\<lparr>children := cs\<rparr>) else s\<lparr>children := cs\<rparr>)"
  have c2: "children s2 = cs"
    by (simp add: s2_def)
  have step: "sigchld_handler s = (if p \<noteq> -1 then sigchld_handler s2 else Some s2)"
    by (subst sigchld_handler.simps) (simp add: wp s2_def Let_def)
  have "\<exists>s'. sigchld_handler s2 = Some s'"
    using Cons.prems ch c2 by (intro Cons(1)) simp_all
  then show ?case
    using step by (cases "p = -1") simp_all
qed

text \<open>
  One pass of the loop on a table whose first child has terminated; this is how the
  handler is evaluated on the examples.
\<close>

lemma handler_pass:
  "sigchld_handler s =
     (case children s of
        [] \<Rightarrow> Some s
      | e # cs \<Rightarrow>
          (case snd e of
             None \<Rightarrow> sigchld_handler s
           | Some w \<Rightarrow>
               if 0 < fst e then sigchld_handler (record_end w (fst e) (s\<lparr>children := cs\<rparr>))
               else if fst e = -1 then Some (s\<lparr>children := cs\<rparr>)
               else sigchld_handler (s\<lparr>children := cs\<rparr>)))"
proof (cases "children s")
  case Nil
  then have "waitpid_nohang s = (-1, None, s)"
    by (simp add: waitpid_nohang_def)
  then have "sigchld_handler s = Some s"
    by (subst sigchld_handler.simps) simp
  then show ?thesis by (simp add: Nil)
next
  case (Cons e cs)
  show ?thesis
  proof (cases "snd e")
    case None
    then show ?thesis by (simp add: Cons)
  next
    case (Some w)
    then obtain p where e: "e = (p, Some w)" by (cases e) simp
    have wp: "waitpid_nohang s = (p, Some w, s\<lparr>children := cs\<rparr>)"
      by (simp add: waitpid_nohang_def Cons e)
    show ?thesis
      by (subst sigchld_handler.simps) (simp add: wp Cons e Let_def)
  qed
qed

text \<open>
  Claim C1 on the code.  The loop of the handler goes on until \<^verbatim>\<open>waitpid\<close> returns \<open>-1\<close>,
  which it does only once the shell has no child left.  With a child that has not
  terminated, \<^verbatim>\<open>waitpid\<close> returns \<open>0\<close>, the state is as before, and the loop goes round
  again: as long as that child runs the handler does not return, whether or not another
  child was collected first.
\<close>

theorem handler_spins_while_a_child_runs:
  "waitpid_nohang (boot\<lparr>children := [(1001, None)]\<rparr>) = (0, None, boot\<lparr>children := [(1001, None)]\<rparr>) \<and>
   sigchld_handler (boot\<lparr>children := [(1000, Some (Exited 0)), (1001, None)]\<rparr>) = None \<and>
   sigchld_handler (boot\<lparr>children := [(1001, None)]\<rparr>) = None"
proof (intro conjI)
  show "waitpid_nohang (boot\<lparr>children := [(1001, None)]\<rparr>) = (0, None, boot\<lparr>children := [(1001, None)]\<rparr>)"
    by (simp add: waitpid_nohang_def)
  show "sigchld_handler (boot\<lparr>children := [(1000, Some (Exited 0)), (1001, None)]\<rparr>) = None"
    by (rule handler_spins) (simp add: has_running_def)
  show "sigchld_handler (boot\<lparr>children := [(1001, None)]\<rparr>) = None"
    by (rule handler_spins) (simp add: has_running_def)
qed

section \<open>Descriptor tables and files\<close>

lemma get_set_same [simp]: "get_fd (set_fd t n v) n = v"
  by (induction t n v rule: set_fd.induct) auto

lemma get_set_other [simp]: "m \<noteq> n \<Longrightarrow> get_fd (set_fd t n v) m = get_fd t m"
proof (induction t n v arbitrary: m rule: set_fd.induct)
  case (1 v)
  then show ?case by (cases m) auto
next
  case (2 n v)
  then show ?case by (cases m) auto
next
  case (3 x xs v)
  then show ?case by (cases m) auto
next
  case (4 x xs n v)
  then show ?case by (cases m) auto
qed

lemma get_lowest_free [simp]: "get_fd t (lowest_free t) = None"
  by (induction t rule: lowest_free.induct) auto

lemma lowest_free_not_open: "get_fd t n = Some f \<Longrightarrow> lowest_free t \<noteq> n"
  using get_lowest_free [of t] by auto

lemma get_close:
  "get_fd (sys_close fd t) m = (if fd_valid t fd \<and> m = nat fd then None else get_fd t m)"
  by (simp add: sys_close_def)

lemma get_dup2:
  "get_fd (sys_dup2 oldfd newfd t) m =
     (if fd_valid t oldfd \<and> 0 \<le> newfd \<and> m = nat newfd then get_fd t (nat oldfd) else get_fd t m)"
  by (simp add: sys_dup2_def)

lemma fd_alloc_eq: "fd_alloc f t = (int (lowest_free t), set_fd t (lowest_free t) (Some f))"
  by (simp add: fd_alloc_def Let_def)

lemma sys_pipe_eq:
  "sys_pipe s =
     ((int (pipe_r (fds s)), int (pipe_w (fds s) (next_pipe s))),
      s\<lparr>fds := pipe_table (fds s) (next_pipe s), next_pipe := next_pipe s + 1\<rparr>)"
  by (simp add: sys_pipe_def fd_alloc_eq Let_def pipe_r_def pipe_w_def pipe_table_def)

lemma pipe_w_neq_r: "pipe_w t k \<noteq> pipe_r t"
  unfolding pipe_w_def pipe_r_def by (rule lowest_free_not_open) simp

lemma pipe_open_kept:
  assumes "get_fd t m = Some f"
  shows "m \<noteq> pipe_r t" and "m \<noteq> pipe_w t k" and "get_fd (pipe_table t k) m = Some f"
proof -
  show r: "m \<noteq> pipe_r t"
    using lowest_free_not_open [OF assms] by (auto simp: pipe_r_def)
  then have "get_fd (set_fd t (lowest_free t) (Some (PipeR k))) m = Some f"
    using assms by (simp add: pipe_r_def)
  from lowest_free_not_open [OF this] show w: "m \<noteq> pipe_w t k"
    by (auto simp: pipe_w_def)
  show "get_fd (pipe_table t k) m = Some f"
    using r w assms by (simp add: pipe_table_def)
qed

lemma pipe_table_r [simp]: "get_fd (pipe_table t k) (pipe_r t) = Some (PipeR k)"
  using pipe_w_neq_r [of t k] by (simp add: pipe_table_def)

lemma pipe_table_w [simp]: "get_fd (pipe_table t k) (pipe_w t k) = Some (PipeW k)"
  by (simp add: pipe_table_def)

lemma lowest_free_0: "lowest_free t \<noteq> 0 \<Longrightarrow> get_fd t 0 \<noteq> None"
  by (induction t rule: lowest_free.induct) auto

lemma pipe_w_pos: "pipe_w t k \<noteq> 0"
proof (cases "pipe_r t = 0")
  case True
  with pipe_w_neq_r [of t k] show ?thesis by simp
next
  case False
  then obtain f where "get_fd t 0 = Some f"
    using lowest_free_0 [of t] by (auto simp: pipe_r_def)
  from pipe_open_kept(2) [OF this, of k] show ?thesis by simp
qed

lemma pipe_r_pos: "get_fd t 0 \<noteq> None \<Longrightarrow> 0 < pipe_r t"
  using pipe_open_kept(1) [of t 0] by auto

lemma pipe_table_other:
  "m \<noteq> pipe_r t \<Longrightarrow> m \<noteq> pipe_w t k \<Longrightarrow> get_fd (pipe_table t k) m = get_fd t m"
  by (simp add: pipe_table_def)

lemma pipe_table_cases:
  "get_fd (pipe_table t k) m = Some g \<Longrightarrow>
   get_fd t m = Some g \<or> g = PipeR k \<or> g = PipeW k"
  by (cases "m = pipe_w t k"; cases "m = pipe_r t") (auto simp: pipe_table_def)

lemma dup2_close_other:
  "m \<noteq> nat a \<Longrightarrow> m \<noteq> nat b \<Longrightarrow> get_fd (sys_close a (sys_dup2 a b t)) m = get_fd t m"
  by (simp add: get_close get_dup2)

lemma dup2_close_target:
  "fd_valid t a \<Longrightarrow> 0 \<le> b \<Longrightarrow> nat a \<noteq> nat b \<Longrightarrow>
   get_fd (sys_close a (sys_dup2 a b t)) (nat b) = get_fd t (nat a)"
  by (simp add: get_close get_dup2)

lemma dup2_close_invalid: "\<not> fd_valid t a \<Longrightarrow> sys_close a (sys_dup2 a b t) = t"
  by (simp add: sys_close_def sys_dup2_def)

lemma fs_open_state:
  "snd (fs_open p fl m s) = s\<lparr>files := files (snd (fs_open p fl m s))\<rparr>"
  by (simp add: fs_open_def split: option.split node.split)

lemma fs_open_rdonly [simp]: "snd (fs_open p {O_RDONLY} m s) = s"
  by (simp add: fs_open_def split: option.split node.split)

lemma fs_open_result:
  "fst (fs_open p fl m s) = None \<or> fst (fs_open p fl m s) = Some (OpenFile p fl)"
  by (simp add: fs_open_def split: option.split node.split)

lemma fs_open_frame:
  "files s' = files s \<Longrightarrow> fst (fs_open p fl m s') = fst (fs_open p fl m s)"
  by (simp add: fs_open_def split: option.split node.split)

lemma fs_open_null:
  "files s p = Some NullDevice \<Longrightarrow> fs_open p fl m s = (Some (OpenFile p fl), s)"
  by (simp add: fs_open_def)

lemma fs_open_keeps_null:
  "files (snd (fs_open p fl m s)) q = Some NullDevice \<longleftrightarrow> files s q = Some NullDevice"
  by (simp add: fs_open_def split: option.split node.split)

lemma fs_open_fail_state: "fst (fs_open p fl m s) = None \<Longrightarrow> snd (fs_open p fl m s) = s"
  by (auto simp: fs_open_def split: option.splits node.splits if_splits)

section \<open>The child of a stage\<close>

subsection \<open>Redirection of the input\<close>

lemma child_open_eq:
  "child_open p fl m (c, s) =
     (case fst (fs_open p fl m s) of
        None \<Rightarrow> (-1, c, snd (fs_open p fl m s))
      | Some f \<Rightarrow> (int (lowest_free (c_fds c)),
                   c\<lparr>c_fds := set_fd (c_fds c) (lowest_free (c_fds c)) (Some f)\<rparr>,
                   snd (fs_open p fl m s)))"
  by (simp add: child_open_def fd_alloc_eq split: prod.split option.split)

lemma redirect_input_eq:
  "redirect_input l i cp (c, s) =
     (if 0 < cp then (c\<lparr>c_fds := sys_close cp (sys_dup2 cp 0 (c_fds c))\<rparr>, s)
      else if wants_input l i
      then (case fst (fs_open (input_path l) {O_RDONLY} None s) of
              None \<Rightarrow> (child_perror ''Input redirection failed'' c, s)
            | Some f \<Rightarrow>
                (c\<lparr>c_fds := sys_close (int (lowest_free (c_fds c)))
                           (sys_dup2 (int (lowest_free (c_fds c))) 0
                              (set_fd (c_fds c) (lowest_free (c_fds c)) (Some f)))\<rparr>, s))
      else (c, s))"
  by (simp add: redirect_input_def child_open_eq split: option.split)

lemma redirect_input_state [simp]: "snd (redirect_input l i cp (c, s)) = s"
  by (simp add: redirect_input_eq split: option.split)

lemma redirect_input_pipe:
  "0 < cp \<Longrightarrow>
   fst (redirect_input l i cp (c, s)) = c\<lparr>c_fds := sys_close cp (sys_dup2 cp 0 (c_fds c))\<rparr>"
  by (simp add: redirect_input_eq)

lemma redirect_input_ok:
  "\<not> 0 < cp \<Longrightarrow> wants_input l i \<Longrightarrow> fst (fs_open (input_path l) {O_RDONLY} None s) = Some f \<Longrightarrow>
   fst (redirect_input l i cp (c, s)) =
     c\<lparr>c_fds := sys_close (int (lowest_free (c_fds c)))
                (sys_dup2 (int (lowest_free (c_fds c))) 0
                   (set_fd (c_fds c) (lowest_free (c_fds c)) (Some f)))\<rparr>"
  by (simp add: redirect_input_eq)

lemma redirect_input_fields [simp]:
  "c_pid (fst (redirect_input l i cp (c, s))) = c_pid c"
  "c_argv (fst (redirect_input l i cp (c, s))) = c_argv c"
  "c_loaded (fst (redirect_input l i cp (c, s))) = c_loaded c"
  "c_ign_sigchld (fst (redirect_input l i cp (c, s))) = c_ign_sigchld c"
  by (simp_all add: redirect_input_eq child_perror_def split: option.split)

lemma redirect_input_diag:
  "c_diag (fst (redirect_input l i cp (c, s))) =
     c_diag c @ (if \<not> 0 < cp \<and> wants_input l i \<and> fst (fs_open (input_path l) {O_RDONLY} None s) = None
                 then [''Input redirection failed''] else [])"
  by (simp add: redirect_input_eq child_perror_def split: option.split)

lemma redirect_input_fd1:
  assumes "get_fd (c_fds c) 1 = Some f" and "cp \<noteq> 1"
  shows "get_fd (c_fds (fst (redirect_input l i cp (c, s)))) 1 = Some f"
proof -
  have lf: "lowest_free (c_fds c) \<noteq> 1"
    using lowest_free_not_open [OF assms(1)] .
  have n1: "(1::nat) \<noteq> nat cp" using assms(2) by linarith
  have a: "get_fd (sys_close cp (sys_dup2 cp 0 (c_fds c))) 1 = Some f"
    using dup2_close_other [of 1 cp 0 "c_fds c"] n1 assms(1) by simp
  have b: "get_fd (sys_close (int (lowest_free (c_fds c)))
             (sys_dup2 (int (lowest_free (c_fds c))) 0
                (set_fd (c_fds c) (lowest_free (c_fds c)) (Some g)))) 1 = Some f" for g
    using dup2_close_other [of 1 "int (lowest_free (c_fds c))" 0
        "set_fd (c_fds c) (lowest_free (c_fds c)) (Some g)"] lf assms(1)
    by simp
  show ?thesis
    using a b assms(1) by (simp add: redirect_input_eq child_perror_def split: option.split)
qed

lemma redirect_input_other:
  assumes "get_fd (c_fds c) m = Some f" and "m \<noteq> 0" and "nat cp \<noteq> m"
  shows "get_fd (c_fds (fst (redirect_input l i cp (c, s)))) m = Some f"
proof -
  have lf: "lowest_free (c_fds c) \<noteq> m"
    using lowest_free_not_open [OF assms(1)] .
  have a: "get_fd (sys_close cp (sys_dup2 cp 0 (c_fds c))) m = Some f"
    using dup2_close_other [of m cp 0 "c_fds c"] assms by simp
  have b: "get_fd (sys_close (int (lowest_free (c_fds c)))
             (sys_dup2 (int (lowest_free (c_fds c))) 0
                (set_fd (c_fds c) (lowest_free (c_fds c)) (Some g)))) m = Some f" for g
    using dup2_close_other [of m "int (lowest_free (c_fds c))" 0
        "set_fd (c_fds c) (lowest_free (c_fds c)) (Some g)"] lf assms
    by simp
  show ?thesis
    using a b assms(1) by (simp add: redirect_input_eq child_perror_def split: option.split)
qed

lemma redirect_input_fd0_pipe:
  assumes "0 < cp" and "get_fd (c_fds c) (nat cp) = Some f"
  shows "get_fd (c_fds (fst (redirect_input l i cp (c, s)))) 0 = Some f"
proof -
  have "fd_valid (c_fds c) cp" using assms by (simp add: fd_valid_def)
  from dup2_close_target [OF this, of 0] assms show ?thesis
    by (simp add: redirect_input_pipe)
qed

lemma redirect_input_fd0_open:
  assumes "\<not> 0 < cp" and "wants_input l i"
    and "fst (fs_open (input_path l) {O_RDONLY} None s) = Some f"
    and "get_fd (c_fds c) 0 \<noteq> None"
  shows "get_fd (c_fds (fst (redirect_input l i cp (c, s)))) 0 = Some f"
proof -
  from assms(4) obtain g where "get_fd (c_fds c) 0 = Some g" by auto
  from lowest_free_not_open [OF this] have n0: "lowest_free (c_fds c) \<noteq> 0" .
  let ?n = "lowest_free (c_fds c)"
  have "fd_valid (set_fd (c_fds c) ?n (Some f)) (int ?n)"
    by (simp add: fd_valid_def)
  from dup2_close_target [OF this, of 0] n0 show ?thesis
    by (simp add: redirect_input_ok [OF assms(1-3)])
qed

lemma redirect_input_fds_kept:
  assumes "\<not> 0 < cp"
    and "\<not> wants_input l i \<or> fst (fs_open (input_path l) {O_RDONLY} None s) = None"
  shows "c_fds (fst (redirect_input l i cp (c, s))) = c_fds c"
  using assms by (auto simp: redirect_input_eq child_perror_def)

lemma redirect_input_fd0_some:
  assumes "get_fd (c_fds c) 0 \<noteq> None"
  shows "get_fd (c_fds (fst (redirect_input l i cp (c, s)))) 0 \<noteq> None"
proof (cases "0 < cp")
  case True
  show ?thesis
  proof (cases "fd_valid (c_fds c) cp")
    case v: True
    from dup2_close_target [OF v, of 0] True v show ?thesis
      by (simp add: redirect_input_pipe fd_valid_def)
  next
    case False
    with True assms show ?thesis
      by (simp add: redirect_input_pipe dup2_close_invalid)
  qed
next
  case False
  show ?thesis
  proof (cases "wants_input l i \<and> fst (fs_open (input_path l) {O_RDONLY} None s) \<noteq> None")
    case True
    then obtain f where "fst (fs_open (input_path l) {O_RDONLY} None s) = Some f" by auto
    from redirect_input_fd0_open [OF False _ this assms] True show ?thesis by simp
  next
    case f: False
    with False assms show ?thesis
      by (simp add: redirect_input_fds_kept)
  qed
qed

subsection \<open>Redirection of the output, and \<^verbatim>\<open>execvp\<close>\<close>

lemma redirect_output_eq:
  "redirect_output l i pipes (c, s) =
     (if \<not> is_last l i
      then (c\<lparr>c_fds := sys_close (snd pipes) (sys_dup2 (snd pipes) 1 (c_fds c))\<rparr>, s)
      else if file_output l = None then (c, s)
      else (case fst (fs_open (out_path l) (output_flags l) None s) of
              None \<Rightarrow> (child_perror ''Output redirection failed'' c, s)
            | Some f \<Rightarrow>
                (c\<lparr>c_fds := sys_close (int (lowest_free (c_fds c)))
                           (sys_dup2 (int (lowest_free (c_fds c))) 1
                              (set_fd (c_fds c) (lowest_free (c_fds c)) (Some f)))\<rparr>,
                 snd (fs_open (out_path l) (output_flags l) None s))))"
  by (auto simp: redirect_output_def child_open_eq is_last_def out_path_def Let_def
      fs_open_fail_state split: option.split)

lemma redirect_output_state:
  "snd (redirect_output l i pipes (c, s)) = s\<lparr>files := files (snd (redirect_output l i pipes (c, s)))\<rparr>"
  using fs_open_state [of "out_path l" "output_flags l" None s]
  by (simp add: redirect_output_eq split: option.split)

lemma redirect_output_fields [simp]:
  "c_pid (fst (redirect_output l i pipes (c, s))) = c_pid c"
  "c_argv (fst (redirect_output l i pipes (c, s))) = c_argv c"
  "c_loaded (fst (redirect_output l i pipes (c, s))) = c_loaded c"
  "c_ign_sigchld (fst (redirect_output l i pipes (c, s))) = c_ign_sigchld c"
  by (simp_all add: redirect_output_eq child_perror_def split: option.split)

lemma redirect_output_diag:
  "c_diag (fst (redirect_output l i pipes (c, s))) =
     c_diag c @ (if is_last l i \<and> file_output l \<noteq> None \<and>
                    fst (fs_open (out_path l) (output_flags l) None s) = None
                 then [''Output redirection failed''] else [])"
  by (simp add: redirect_output_eq child_perror_def split: option.split)

lemma redirect_output_fd0:
  assumes "get_fd (c_fds c) 0 = Some f" and "is_last l i \<or> nat (snd pipes) \<noteq> 0"
  shows "get_fd (c_fds (fst (redirect_output l i pipes (c, s)))) 0 = Some f"
proof -
  have lf: "lowest_free (c_fds c) \<noteq> 0"
    using lowest_free_not_open [OF assms(1)] .
  have a: "get_fd (sys_close (snd pipes) (sys_dup2 (snd pipes) 1 (c_fds c))) 0 = Some f"
    if "nat (snd pipes) \<noteq> 0"
    using dup2_close_other [of 0 "snd pipes" 1 "c_fds c"] that assms(1) by simp
  have b: "get_fd (sys_close (int (lowest_free (c_fds c)))
             (sys_dup2 (int (lowest_free (c_fds c))) 1
                (set_fd (c_fds c) (lowest_free (c_fds c)) (Some g)))) 0 = Some f" for g
    using dup2_close_other [of 0 "int (lowest_free (c_fds c))" 1
        "set_fd (c_fds c) (lowest_free (c_fds c)) (Some g)"] lf assms(1)
    by simp
  show ?thesis
    using a b assms by (auto simp: redirect_output_eq child_perror_def split: option.split)
qed

lemma redirect_output_other:
  assumes "get_fd (c_fds c) m = Some f" and "m \<noteq> 1" and "is_last l i \<or> nat (snd pipes) \<noteq> m"
  shows "get_fd (c_fds (fst (redirect_output l i pipes (c, s)))) m = Some f"
proof -
  have lf: "lowest_free (c_fds c) \<noteq> m"
    using lowest_free_not_open [OF assms(1)] .
  have a: "get_fd (sys_close (snd pipes) (sys_dup2 (snd pipes) 1 (c_fds c))) m = Some f"
    if "nat (snd pipes) \<noteq> m"
    using dup2_close_other [of m "snd pipes" 1 "c_fds c"] that assms by simp
  have b: "get_fd (sys_close (int (lowest_free (c_fds c)))
             (sys_dup2 (int (lowest_free (c_fds c))) 1
                (set_fd (c_fds c) (lowest_free (c_fds c)) (Some g)))) m = Some f" for g
    using dup2_close_other [of m "int (lowest_free (c_fds c))" 1
        "set_fd (c_fds c) (lowest_free (c_fds c)) (Some g)"] lf assms
    by simp
  show ?thesis
    using a b assms by (auto simp: redirect_output_eq child_perror_def split: option.split)
qed

lemma redirect_output_fds_kept:
  assumes "is_last l i"
    and "file_output l = None \<or> fst (fs_open (out_path l) (output_flags l) None s) = None"
  shows "c_fds (fst (redirect_output l i pipes (c, s))) = c_fds c"
  using assms by (auto simp: redirect_output_eq child_perror_def)

lemma child_exec_eq:
  "child_exec cmd (c, s) =
     (case args cmd of
        [] \<Rightarrow> (c\<lparr>c_argv := args cmd, c_fault := True\<rparr>, s)
      | a # _ \<Rightarrow>
          if programs s a then (c\<lparr>c_argv := args cmd, c_loaded := True\<rparr>, s)
          else (child_perror ''execvp failed'' (c\<lparr>c_argv := args cmd\<rparr>), s))"
  by (simp add: child_exec_def Let_def)

lemma child_exec_fields [simp]:
  "snd (child_exec cmd (c, s)) = s"
  "c_pid (fst (child_exec cmd (c, s))) = c_pid c"
  "c_argv (fst (child_exec cmd (c, s))) = args cmd"
  "c_fds (fst (child_exec cmd (c, s))) = c_fds c"
  "c_ign_sigchld (fst (child_exec cmd (c, s))) = c_ign_sigchld c"
  by (simp_all add: child_exec_eq child_perror_def split: list.split)

lemma child_exec_diag:
  "c_diag (fst (child_exec cmd (c, s))) =
     c_diag c @ (if (case args cmd of [] \<Rightarrow> True | a # _ \<Rightarrow> programs s a) then []
                 else [''execvp failed''])"
  by (simp add: child_exec_eq child_perror_def split: list.split)

lemma child_at_exec_eq:
  "child_at_exec l cmd i cp pipes pid s =
     child_exec cmd
       (redirect_output l i pipes
          (fst (redirect_input l i cp (child0 l pid s, s)), s))"
proof -
  have "redirect_input l i cp (child0 l pid s, s) = (fst (redirect_input l i cp (child0 l pid s, s)), s)"
    by (simp add: prod_eq_iff)
  then show ?thesis
    by (simp add: child_at_exec_def)
qed

lemma child_at_exec_state:
  "snd (child_at_exec l cmd i cp pipes pid s) =
     s\<lparr>files := files (snd (child_at_exec l cmd i cp pipes pid s))\<rparr>"
proof -
  obtain c1 s1 where r: "redirect_output l i pipes
          (fst (redirect_input l i cp (child0 l pid s, s)), s) = (c1, s1)"
    by (cases "redirect_output l i pipes (fst (redirect_input l i cp (child0 l pid s, s)), s)")
  from redirect_output_state [of l i pipes "fst (redirect_input l i cp (child0 l pid s, s))" s] r
  have "s1 = s\<lparr>files := files s1\<rparr>" by simp
  then show ?thesis
    by (simp add: child_at_exec_eq r)
qed

lemma child_at_exec_fields [simp]:
  "c_pid (fst (child_at_exec l cmd i cp pipes pid s)) = pid"
  "c_argv (fst (child_at_exec l cmd i cp pipes pid s)) = args cmd"
  "c_ign_sigchld (fst (child_at_exec l cmd i cp pipes pid s)) = background l"
proof -
  obtain c1 s1 where r: "redirect_output l i pipes
          (fst (redirect_input l i cp (child0 l pid s, s)), s) = (c1, s1)"
    by (cases "redirect_output l i pipes (fst (redirect_input l i cp (child0 l pid s, s)), s)")
  have c1: "c1 = fst (redirect_output l i pipes (fst (redirect_input l i cp (child0 l pid s, s)), s))"
    by (simp add: r)
  show "c_pid (fst (child_at_exec l cmd i cp pipes pid s)) = pid"
    by (simp add: child_at_exec_eq r) (simp add: c1 child0_def)
  show "c_argv (fst (child_at_exec l cmd i cp pipes pid s)) = args cmd"
    by (simp add: child_at_exec_eq r)
  show "c_ign_sigchld (fst (child_at_exec l cmd i cp pipes pid s)) = background l"
    by (simp add: child_at_exec_eq r) (simp add: c1 child0_def)
qed

lemma child_at_exec_fds:
  "c_fds (fst (child_at_exec l cmd i cp pipes pid s)) =
     c_fds (fst (redirect_output l i pipes (fst (redirect_input l i cp (child0 l pid s, s)), s)))"
  by (cases "redirect_output l i pipes (fst (redirect_input l i cp (child0 l pid s, s)), s)")
     (simp add: child_at_exec_eq)

lemma child_at_exec_diag:
  "c_diag (fst (child_at_exec l cmd i cp pipes pid s)) =
     (if \<not> 0 < cp \<and> wants_input l i \<and> fst (fs_open (input_path l) {O_RDONLY} None s) = None
      then [''Input redirection failed''] else []) @
     (if is_last l i \<and> file_output l \<noteq> None \<and>
         fst (fs_open (out_path l) (output_flags l) None s) = None
      then [''Output redirection failed''] else []) @
     (if (case args cmd of [] \<Rightarrow> True | a # _ \<Rightarrow> programs s a) then []
      else [''execvp failed''])"
proof -
  obtain c1 s1 where r: "redirect_output l i pipes
          (fst (redirect_input l i cp (child0 l pid s, s)), s) = (c1, s1)"
    by (cases "redirect_output l i pipes (fst (redirect_input l i cp (child0 l pid s, s)), s)")
  have c1: "c1 = fst (redirect_output l i pipes (fst (redirect_input l i cp (child0 l pid s, s)), s))"
    by (simp add: r)
  have s1: "s1 = snd (redirect_output l i pipes (fst (redirect_input l i cp (child0 l pid s, s)), s))"
    by (simp add: r)
  have "s1 = s\<lparr>files := files s1\<rparr>"
    using redirect_output_state [of l i pipes "fst (redirect_input l i cp (child0 l pid s, s))" s]
    unfolding s1 [symmetric] .
  from arg_cong [OF this, of programs] have p: "programs s1 = programs s"
    by simp
  have d1: "c_diag c1 = c_diag (fst (redirect_input l i cp (child0 l pid s, s))) @
       (if is_last l i \<and> file_output l \<noteq> None \<and>
         fst (fs_open (out_path l) (output_flags l) None s) = None
      then [''Output redirection failed''] else [])"
    unfolding c1 by (rule redirect_output_diag)
  have d0: "c_diag (fst (redirect_input l i cp (child0 l pid s, s))) =
      (if \<not> 0 < cp \<and> wants_input l i \<and> fst (fs_open (input_path l) {O_RDONLY} None s) = None
      then [''Input redirection failed''] else [])"
    by (simp add: redirect_input_diag child0_def)
  show ?thesis
    by (simp only: child_at_exec_eq r child_exec_diag d1 d0 p append_assoc)
qed

section \<open>\<^verbatim>\<open>execute_command\<close>, case by case\<close>

lemma child_code_eq:
  "child_code l cmd i cp pipes pid s =
     s\<lparr>files := files (snd (child_at_exec l cmd i cp pipes pid s)),
       spawned := spawned s @ [fst (child_at_exec l cmd i cp pipes pid s)]\<rparr>"
proof -
  obtain c s1 where r: "child_at_exec l cmd i cp pipes pid s = (c, s1)"
    by (cases "child_at_exec l cmd i cp pipes pid s")
  from child_at_exec_state [of l cmd i cp pipes pid s] r have s1: "s1 = s\<lparr>files := files s1\<rparr>"
    by simp
  have "s1\<lparr>spawned := spawned s1 @ [c]\<rparr> = s\<lparr>files := files s1, spawned := spawned s @ [c]\<rparr>"
    by (subst s1, subst (2) s1) simp
  then show ?thesis
    by (simp add: child_code_def r)
qed

lemma execute_command_fork_fails:
  "max_forks s = 0 \<Longrightarrow>
   execute_command l cmd i cp s =
     Some (-1, perror ''fork failed''
            (if is_last l i then s
             else s\<lparr>fds := pipe_table (fds s) (next_pipe s), next_pipe := next_pipe s + 1\<rparr>))"
  by (simp add: execute_command_def sys_fork_def sys_pipe_eq)

lemma execute_command_nonlast:
  assumes "\<not> is_last l i" and "0 < max_forks s" and "next_pid s \<noteq> -1"
  shows "execute_command l cmd i cp s =
     Some (int (pipe_r (fds s)),
      s\<lparr>fds := (if 0 < cp then sys_close cp else id)
                  (sys_close (int (pipe_w (fds s) (next_pipe s))) (pipe_table (fds s) (next_pipe s))),
        next_pipe := next_pipe s + 1,
        next_pid := next_pid s + 1, max_forks := max_forks s - 1,
        children := children s @ [(next_pid s, None)],
        files := stage_files l cmd i cp s,
        spawned := spawned s @ [stage_child l cmd i cp s]\<rparr>)"
  using assms
  by (simp add: execute_command_def sys_fork_def sys_pipe_eq child_code_eq Let_def
      stage_files_def stage_child_def stage_pipes_def forked_def)

lemma execute_command_last_bg:
  assumes "is_last l i" and "0 < max_forks s" and "next_pid s \<noteq> -1" and "background l"
  shows "execute_command l cmd i cp s =
     Some (-1,
      s\<lparr>fds := (if 0 < cp then sys_close cp else id) (fds s),
        next_pid := next_pid s + 1, max_forks := max_forks s - 1,
        children := children s @ [(next_pid s, None)],
        files := stage_files l cmd i cp s,
        spawned := spawned s @ [stage_child l cmd i cp s]\<rparr>)"
  using assms
  by (simp add: execute_command_def sys_fork_def child_code_eq Let_def
      stage_files_def stage_child_def stage_pipes_def forked_def)

lemma execute_command_last_fg:
  assumes "is_last l i" and "0 < max_forks s" and "next_pid s \<noteq> -1" and "\<not> background l"
  shows "execute_command l cmd i cp s =
     (case wait_foreground (next_pid s)
             (s\<lparr>fds := (if 0 < cp then sys_close cp else id) (fds s),
                next_pid := next_pid s + 1, max_forks := max_forks s - 1,
                children := children s @ [(next_pid s, None)],
                files := stage_files l cmd i cp s,
                spawned := spawned s @ [stage_child l cmd i cp s]\<rparr>) of
        None \<Rightarrow> None
      | Some (stat, s') \<Rightarrow> Some (-1, record_end stat (next_pid s) s'))"
proof -
  have eq: "(if 0 < cp
        then (s\<lparr>next_pid := next_pid s + 1, max_forks := max_forks s - 1,
                children := children s @ [(next_pid s, None)],
                files := stage_files l cmd i cp s,
                spawned := spawned s @ [stage_child l cmd i cp s]\<rparr>)
              \<lparr>fds := sys_close cp (fds s)\<rparr>
        else s\<lparr>next_pid := next_pid s + 1, max_forks := max_forks s - 1,
                children := children s @ [(next_pid s, None)],
                files := stage_files l cmd i cp s,
                spawned := spawned s @ [stage_child l cmd i cp s]\<rparr>) =
      s\<lparr>fds := (if 0 < cp then sys_close cp else id) (fds s),
                next_pid := next_pid s + 1, max_forks := max_forks s - 1,
                children := children s @ [(next_pid s, None)],
                files := stage_files l cmd i cp s,
                spawned := spawned s @ [stage_child l cmd i cp s]\<rparr>"
    by simp
  have "execute_command l cmd i cp s =
     (case wait_foreground (next_pid s)
             (if 0 < cp
        then (s\<lparr>next_pid := next_pid s + 1, max_forks := max_forks s - 1,
                children := children s @ [(next_pid s, None)],
                files := stage_files l cmd i cp s,
                spawned := spawned s @ [stage_child l cmd i cp s]\<rparr>)
              \<lparr>fds := sys_close cp (fds s)\<rparr>
        else s\<lparr>next_pid := next_pid s + 1, max_forks := max_forks s - 1,
                children := children s @ [(next_pid s, None)],
                files := stage_files l cmd i cp s,
                spawned := spawned s @ [stage_child l cmd i cp s]\<rparr>) of
        None \<Rightarrow> None
      | Some (stat, s') \<Rightarrow> Some (-1, record_end stat (next_pid s) s'))"
    using assms
    by (auto simp: execute_command_def sys_fork_def child_code_eq Let_def
        stage_files_def stage_child_def stage_pipes_def forked_def
        split: option.split)
  then show ?thesis
    unfolding eq .
qed

text \<open>
  The wait of the last stage of a foreground line returns (every child of the table comes
  to its end), and leaves the shell as it was but for the array, the table of children
  and the list of the processes waited for.
\<close>

lemma children_end_terminated:
  "\<forall>e \<in> set (children (children_end s)). snd e \<noteq> None"
  by (auto simp: children_end_def split: option.splits)

lemma sys_waitpid_shape:
  "\<exists>st cs. sys_waitpid pid x = (st, x\<lparr>children := cs, waited := waited x @ [pid]\<rparr>)"
proof (cases "map_of (children x) pid")
  case None
  then have "sys_waitpid pid x =
      (junk_stat x, x\<lparr>children := children x, waited := waited x @ [pid]\<rparr>)"
    by (simp add: sys_waitpid_def)
  then show ?thesis by blast
next
  case (Some st)
  then have "sys_waitpid pid x =
      (case st of Some w \<Rightarrow> w | None \<Rightarrow> final_status x pid,
       x\<lparr>children := filter (\<lambda>e. fst e \<noteq> pid) (children x), waited := waited x @ [pid]\<rparr>)"
    by (simp add: sys_waitpid_def)
  then show ?thesis by blast
qed

lemma handler_after_end:
  "\<exists>b cs cr. sigchld_handler (children_end s) =
     Some (s\<lparr>endstatus := b, children := cs, crashed := cr\<rparr>)"
proof -
  from handler_ends [OF children_end_terminated [of s]]
  obtain h where h: "sigchld_handler (children_end s) = Some h"
    by blast
  from handler_frame [OF h] obtain b cs cr where
    "h = (children_end s)\<lparr>endstatus := b, children := cs, crashed := cr\<rparr>"
    by blast
  then have "h = s\<lparr>endstatus := b, children := cs, crashed := cr\<rparr>"
    by (simp add: children_end_def)
  with h show ?thesis by blast
qed

lemma wait_foreground_returns:
  "\<exists>stat b cs cr. wait_foreground pid s =
     Some (stat, s\<lparr>endstatus := b, children := cs, crashed := cr, waited := waited s @ [pid]\<rparr>)"
proof (cases "handler_first s pid")
  case True
  from handler_after_end [of s] obtain b cs cr where
    h: "sigchld_handler (children_end s) = Some (s\<lparr>endstatus := b, children := cs, crashed := cr\<rparr>)"
    by blast
  from sys_waitpid_shape [of pid "s\<lparr>endstatus := b, children := cs, crashed := cr\<rparr>"]
  obtain st cs' where
    "sys_waitpid pid (s\<lparr>endstatus := b, children := cs, crashed := cr\<rparr>) =
       (st, (s\<lparr>endstatus := b, children := cs, crashed := cr\<rparr>)
              \<lparr>children := cs',
               waited := waited (s\<lparr>endstatus := b, children := cs, crashed := cr\<rparr>) @ [pid]\<rparr>)"
    by blast
  then have "sys_waitpid pid (s\<lparr>endstatus := b, children := cs, crashed := cr\<rparr>) =
       (st, s\<lparr>endstatus := b, children := cs', crashed := cr, waited := waited s @ [pid]\<rparr>)"
    by simp
  then have "wait_foreground pid s =
      Some (st, s\<lparr>endstatus := b, children := cs', crashed := cr, waited := waited s @ [pid]\<rparr>)"
    using True h by (simp add: wait_foreground_def)
  then show ?thesis by blast
next
  case False
  from sys_waitpid_shape [of pid s] obtain st cs where
    w: "sys_waitpid pid s = (st, s\<lparr>children := cs, waited := waited s @ [pid]\<rparr>)"
    by blast
  show ?thesis
  proof (cases "map_of (children s) pid")
    case None
    then have "wait_foreground pid s =
        Some (st, s\<lparr>endstatus := endstatus s, children := cs, crashed := crashed s,
                     waited := waited s @ [pid]\<rparr>)"
      using False w by (simp add: wait_foreground_def)
    then show ?thesis by blast
  next
    case (Some v)
    from handler_after_end [of "s\<lparr>children := cs, waited := waited s @ [pid]\<rparr>"]
    obtain b cs' cr where
      "sigchld_handler (children_end (s\<lparr>children := cs, waited := waited s @ [pid]\<rparr>)) =
         Some ((s\<lparr>children := cs, waited := waited s @ [pid]\<rparr>)
                 \<lparr>endstatus := b, children := cs', crashed := cr\<rparr>)"
      by blast
    then have "sigchld_handler (children_end (s\<lparr>children := cs, waited := waited s @ [pid]\<rparr>)) =
         Some (s\<lparr>endstatus := b, children := cs', crashed := cr, waited := waited s @ [pid]\<rparr>)"
      by simp
    then have "wait_foreground pid s =
        Some (st, s\<lparr>endstatus := b, children := cs', crashed := cr, waited := waited s @ [pid]\<rparr>)"
      using False w Some by (simp add: wait_foreground_def)
    then show ?thesis by blast
  qed
qed

text \<open>
  Every call of \<^verbatim>\<open>execute_command\<close> that can create its process returns, and has added
  the child of the stage to the processes started.
\<close>

lemma execute_command_returns:
  assumes "0 < max_forks s" and "next_pid s \<noteq> -1"
  shows "\<exists>r s'. execute_command l cmd i cp s = Some (r, s') \<and>
           spawned s' = spawned s @ [stage_child l cmd i cp s] \<and>
           max_forks s' = max_forks s - 1 \<and> next_pid s' = next_pid s + 1"
proof (cases "is_last l i")
  case False
  show ?thesis
    by (simp add: execute_command_nonlast [OF False assms])
next
  case True
  show ?thesis
  proof (cases "background l")
    case bg: True
    show ?thesis
      by (simp add: execute_command_last_bg [OF True assms bg])
  next
    case fg: False
    define s5 where "s5 = s\<lparr>fds := (if 0 < cp then sys_close cp else id) (fds s),
                next_pid := next_pid s + 1, max_forks := max_forks s - 1,
                children := children s @ [(next_pid s, None)],
                files := stage_files l cmd i cp s,
                spawned := spawned s @ [stage_child l cmd i cp s]\<rparr>"
    from wait_foreground_returns [of "next_pid s" s5] obtain stat b cs cr where
      w: "wait_foreground (next_pid s) s5 =
         Some (stat, s5\<lparr>endstatus := b, children := cs, crashed := cr,
                        waited := waited s5 @ [next_pid s]\<rparr>)"
      by blast
    have "execute_command l cmd i cp s =
        Some (-1, record_end stat (next_pid s)
                    (s5\<lparr>endstatus := b, children := cs, crashed := cr,
                        waited := waited s5 @ [next_pid s]\<rparr>))"
      unfolding execute_command_last_fg [OF True assms fg] s5_def [symmetric] w by simp
    then show ?thesis
      by (simp add: s5_def)
  qed
qed

subsection \<open>The descriptors of the child\<close>

lemma forked_fds:
  "fds (forked l i s) = (if is_last l i then fds s else pipe_table (fds s) (next_pipe s))"
  by (simp add: forked_def)

lemma forked_files [simp]: "files (forked l i s) = files s"
  by (simp add: forked_def)

lemma forked_open_kept:
  "get_fd (fds s) m = Some f \<Longrightarrow> get_fd (fds (forked l i s)) m = Some f"
  by (simp add: forked_fds pipe_open_kept(3))

lemma forked_fd_cases:
  "get_fd (fds (forked l i s)) m = Some g \<Longrightarrow>
   get_fd (fds s) m = Some g \<or> g = PipeR (next_pipe s) \<or> g = PipeW (next_pipe s)"
  using pipe_table_cases [of "fds s" "next_pipe s" m g]
  by (auto simp: forked_fds split: if_splits)

lemma stage_child_fds:
  "c_fds (stage_child l cmd i cp s) =
     c_fds (fst (redirect_output l i (stage_pipes l i s)
        (fst (redirect_input l i cp (child0 l (next_pid s) (forked l i s), forked l i s)),
         forked l i s)))"
  by (simp add: stage_child_def child_at_exec_fds)

lemma stage_pipes_w: "is_last l i \<or> nat (snd (stage_pipes l i s)) \<noteq> 0"
  by (simp add: stage_pipes_def pipe_w_pos)

lemma stage_pipes_other:
  "get_fd (fds s) m = Some f \<Longrightarrow> is_last l i \<or> nat (snd (stage_pipes l i s)) \<noteq> m"
  using pipe_open_kept(2) [of "fds s" m f "next_pipe s"] by (auto simp: stage_pipes_def)

lemma child0_fds [simp]: "c_fds (child0 l pid s) = fds s"
  by (simp add: child0_def)

lemma stage_child_fd0:
  assumes "get_fd (fds s) 0 = Some f0"
  shows "get_fd (c_fds (stage_child l cmd i cp s)) 0 =
         get_fd (c_fds (fst (redirect_input l i cp (child0 l (next_pid s) (forked l i s), forked l i s)))) 0"
proof -
  let ?c1 = "fst (redirect_input l i cp (child0 l (next_pid s) (forked l i s), forked l i s))"
  have "get_fd (c_fds (child0 l (next_pid s) (forked l i s))) 0 \<noteq> None"
    using forked_open_kept [OF assms, of l i] by simp
  from redirect_input_fd0_some [OF this, of l i cp "forked l i s"]
  obtain g where g: "get_fd (c_fds ?c1) 0 = Some g" by auto
  from redirect_output_fd0 [OF g stage_pipes_w, of l i s "forked l i s"] g show ?thesis
    by (simp add: stage_child_fds)
qed

lemma stage_child_other:
  assumes "get_fd (fds s) m = Some f" and "1 < m" and "nat cp \<noteq> m"
  shows "get_fd (c_fds (stage_child l cmd i cp s)) m = Some f"
proof -
  let ?s2 = "forked l i s"
  have "get_fd (c_fds (child0 l (next_pid s) ?s2)) m = Some f"
    using forked_open_kept [OF assms(1), where l = l and i = i] by simp
  from redirect_input_other [OF this _ assms(3), where l = l and i = i and s = ?s2] assms(2)
  have "get_fd (c_fds (fst (redirect_input l i cp (child0 l (next_pid s) ?s2, ?s2)))) m = Some f"
    by simp
  from redirect_output_other [OF this _ stage_pipes_other [OF assms(1)], where s = ?s2] assms(2)
  show ?thesis
    by (simp add: stage_child_fds)
qed

lemma stage_child_diag:
  "c_diag (stage_child l cmd i cp s) =
     (if \<not> 0 < cp \<and> wants_input l i \<and> fst (fs_open (input_path l) {O_RDONLY} None s) = None
      then [''Input redirection failed''] else []) @
     (if is_last l i \<and> file_output l \<noteq> None \<and>
         fst (fs_open (out_path l) (output_flags l) None s) = None
      then [''Output redirection failed''] else []) @
     (if (case args cmd of [] \<Rightarrow> True | a # _ \<Rightarrow> programs s a) then []
      else [''execvp failed''])"
proof -
  have f: "fst (fs_open p fl m (forked l i s)) = fst (fs_open p fl m s)" for p fl m
    by (rule fs_open_frame) simp
  have p: "programs (forked l i s) = programs s"
    by (simp add: forked_def)
  show ?thesis
    by (simp only: stage_child_def child_at_exec_diag f p)
qed

lemma nonlast_stage_result:
  assumes nl: "\<not> is_last l i" and fork: "0 < max_forks s" "next_pid s \<noteq> -1"
    and std0: "get_fd (fds s) 0 = Some f0"
    and cp: "\<not> 0 < cp \<or> fd_valid (fds s) cp"
  shows "\<exists>s1. execute_command l cmd i cp s = Some (int (pipe_r (fds s)), s1) \<and>
              get_fd (fds s1) (pipe_r (fds s)) = Some (PipeR (next_pipe s)) \<and>
              get_fd (fds s1) 0 = Some f0 \<and>
              spawned s1 = spawned s @ [stage_child l cmd i cp s] \<and>
              max_forks s1 = max_forks s - 1 \<and> next_pid s1 = next_pid s + 1"
    and "0 < pipe_r (fds s)"
proof -
  let ?T = "pipe_table (fds s) (next_pipe s)"
  let ?w = "pipe_w (fds s) (next_pipe s)"
  let ?r = "pipe_r (fds s)"
  show "0 < ?r"
    using pipe_r_pos [of "fds s"] std0 by simp
  have a: "get_fd (sys_close (int ?w) ?T) ?r = Some (PipeR (next_pipe s))"
    using pipe_w_neq_r [of "fds s" "next_pipe s"] by (simp add: get_close)
  have b: "get_fd (sys_close cp (sys_close (int ?w) ?T)) ?r = Some (PipeR (next_pipe s))"
    if "0 < cp"
  proof -
    from cp that obtain g where "get_fd (fds s) (nat cp) = Some g"
      by (auto simp: fd_valid_def)
    from pipe_open_kept(1) [OF this] have "nat cp \<noteq> ?r" .
    then show ?thesis
      using a by (simp add: get_close)
  qed
  have a0: "get_fd (sys_close (int ?w) ?T) 0 = Some f0"
    using pipe_w_pos [of "fds s" "next_pipe s"] pipe_open_kept(3) [OF std0]
    by (simp add: get_close)
  have b0: "get_fd (sys_close cp (sys_close (int ?w) ?T)) 0 = Some f0" if "0 < cp"
    using a0 that by (simp add: get_close)
  show "\<exists>s1. execute_command l cmd i cp s = Some (int ?r, s1) \<and>
              get_fd (fds s1) ?r = Some (PipeR (next_pipe s)) \<and>
              get_fd (fds s1) 0 = Some f0 \<and>
              spawned s1 = spawned s @ [stage_child l cmd i cp s] \<and>
              max_forks s1 = max_forks s - 1 \<and> next_pid s1 = next_pid s + 1"
    using a b a0 b0 by (simp add: execute_command_nonlast [OF nl fork])
qed

section \<open>\<^verbatim>\<open>cd\<close> and the loop of \<^verbatim>\<open>execute_line\<close>\<close>

lemma cd_frame [simp]:
  "fds (cd p s) = fds s"
  "endstatus (cd p s) = endstatus s"
  "spawned (cd p s) = spawned s"
  "children (cd p s) = children s"
  "waited (cd p s) = waited s"
  "files (cd p s) = files s"
  "next_pid (cd p s) = next_pid s"
  "next_pipe (cd p s) = next_pipe s"
  "max_forks (cd p s) = max_forks s"
  "fate (cd p s) = fate s"
  "handler_first (cd p s) = handler_first s"
  "junk_int (cd p s) = junk_int s"
  "junk_stat (cd p s) = junk_stat s"
  "programs (cd p s) = programs s"
  "umask (cd p s) = umask s"
  "junk_mode (cd p s) = junk_mode s"
  by (simp_all add: cd_def Let_def perror_def fprintf_stderr_def sys_chdir_def)

lemma is_last_iff:
  "0 < n_cmds l \<Longrightarrow> n_cmds l < 2 ^ 64 \<Longrightarrow> is_last l i \<longleftrightarrow> i = n_cmds l - 1"
  by (simp add: is_last_def size_sub_small)

lemma line_step_cd:
  "is_cd (cmds l ! i) \<Longrightarrow> line_step l i (cp, s) = Some (cp, cd (args (cmds l ! i) ! 1) s)"
  by (simp add: line_step_def)

lemma line_step_ext:
  "\<not> is_cd (cmds l ! i) \<Longrightarrow> line_step l i (cp, s) = execute_command l (cmds l ! i) i cp s"
  by (simp add: line_step_def)

section \<open>Evaluation on the examples\<close>

lemma get_fd_Cons: "get_fd (x # xs) n = (if n = 0 then x else get_fd xs (n - 1))"
  by (cases n) auto

lemma set_fd_Cons: "set_fd (x # xs) n v = (if n = 0 then v # xs else x # set_fd xs (n - 1) v)"
  by (cases n) auto

lemma set_fd_Nil: "set_fd [] n v = (if n = 0 then [v] else None # set_fd [] (n - 1) v)"
  by (cases n) auto

lemmas eval_defs =
  execute_line_def line_loop_def line_step_def wait_foreground_def children_end_def handler_pass is_cd_def n_args_def n_cmds_def is_last_def size_sub_def
  execute_command_def sys_pipe_def sys_fork_def child_code_def child_at_exec_def child0_def
  redirect_input_def redirect_output_def child_exec_def child_open_def child_perror_def
  wants_input_def input_path_def out_path_def output_flags_def
  fs_open_def fd_alloc_def sys_close_def sys_dup2_def fd_valid_def sys_waitpid_def final_status_def
  perror_def fprintf_stderr_def cd_def sys_chdir_def S_IWUSR_def S_IRUSR_def
  get_fd_Cons set_fd_Cons set_fd_Nil Let_def

lemma boot_fd: "get_fd (fds boot) n = (if n < 3 then Some Tty else None)"
  by (simp add: boot_def get_fd_Cons)

section \<open>The claims about the executor\<close>

subsection \<open>Claim C3: the null input of a background line\<close>

text \<open>
  Claim C3, as amended.  In a background line, whatever the index of the stage, the child's
  standard input is on the null device exactly when the stage is handed no pipe descriptor
  (\<^verbatim>\<open>pipeIn\<close> is not positive) and the line has no input path.  (The process can be created,
  the null device exists, and neither the shell's own descriptors nor the line's input path
  are on the null device already.)  A read on the null device returns end-of-stream at
  once.
\<close>

theorem null_input_for_background_stage:
  assumes bg: "background line"
    and fork: "0 < max_forks s" "next_pid s \<noteq> -1"
    and std: "get_fd (fds s) 0 = Some f0"
    and nonull: "\<forall>n g. get_fd (fds s) n = Some g \<longrightarrow> \<not> on_null_device (files s) (Some g)"
    and dev: "files s ''/dev/null'' = Some NullDevice"
    and expl: "\<forall>p. file_input line = Some p \<longrightarrow> files s p \<noteq> Some NullDevice"
  shows "\<exists>c r s'. execute_command line command i pipeIn s = Some (r, s') \<and>
             spawned s' = spawned s @ [c] \<and>
             c_argv c = args command \<and>
             (on_null_device (files s) (get_fd (c_fds c) 0) \<longleftrightarrow>
                \<not> 0 < pipeIn \<and> file_input line = None)"
proof -
  let ?s2 = "forked line i s"
  let ?c = "stage_child line command i pipeIn s"
  let ?c1 = "fst (redirect_input line i pipeIn (child0 line (next_pid s) ?s2, ?s2))"
  have fd0: "get_fd (c_fds ?c) 0 = get_fd (c_fds ?c1) 0"
    by (rule stage_child_fd0 [OF std])
  have t0: "get_fd (fds ?s2) 0 = Some f0"
    by (rule forked_open_kept [OF std])
  have nn: "\<not> on_null_device (files s) (Some g)" if "get_fd (fds ?s2) m = Some g" for m g
    using forked_fd_cases [OF that] nonull by (auto simp: on_null_device_def)
  have wi: "wants_input line i"
    using bg by (simp add: wants_input_def)
  have main: "on_null_device (files s) (get_fd (c_fds ?c1) 0) \<longleftrightarrow>
              \<not> 0 < pipeIn \<and> file_input line = None"
  proof (cases "0 < pipeIn")
    case True
    show ?thesis
    proof (cases "fd_valid (fds ?s2) pipeIn")
      case v: True
      then obtain g where g: "get_fd (fds ?s2) (nat pipeIn) = Some g"
        by (auto simp: fd_valid_def)
      from redirect_input_fd0_pipe [OF True, where c = "child0 line (next_pid s) ?s2" and f = g
          and l = line and i = i and s = ?s2] g
      have "get_fd (c_fds ?c1) 0 = Some g" by simp
      with nn [OF g] True show ?thesis by simp
    next
      case False
      then have "c_fds ?c1 = fds ?s2"
        using True by (simp add: redirect_input_pipe dup2_close_invalid)
      with nn [OF t0] t0 True show ?thesis by simp
    qed
  next
    case False
    show ?thesis
    proof (cases "file_input line")
      case None
      then have ip: "input_path line = ''/dev/null''"
        by (simp add: input_path_def)
      have "fst (fs_open (input_path line) {O_RDONLY} None ?s2) =
            Some (OpenFile ''/dev/null'' {O_RDONLY})"
        using dev by (simp add: ip fs_open_null)
      from redirect_input_fd0_open [OF False wi this, where c = "child0 line (next_pid s) ?s2"] t0
      have "get_fd (c_fds ?c1) 0 = Some (OpenFile ''/dev/null'' {O_RDONLY})" by simp
      with dev None False show ?thesis
        by (simp add: on_null_device_def)
    next
      case (Some p)
      then have ip: "input_path line = p"
        by (simp add: input_path_def)
      from expl Some have np: "files s p \<noteq> Some NullDevice" by simp
      show ?thesis
      proof (cases "fst (fs_open p {O_RDONLY} None ?s2)")
        case None
        then have "c_fds ?c1 = fds ?s2"
          using False by (simp add: redirect_input_fds_kept ip)
        with nn [OF t0] t0 Some show ?thesis by simp
      next
        case (Some f)
        with fs_open_result [of p "{O_RDONLY}" None ?s2] have f: "f = OpenFile p {O_RDONLY}"
          by simp
        from redirect_input_fd0_open [OF False wi, where f = f and s = ?s2
            and c = "child0 line (next_pid s) ?s2"] Some t0
        have "get_fd (c_fds ?c1) 0 = Some f" by (simp add: ip)
        with np f \<open>file_input line = Some p\<close> show ?thesis
          by (simp add: on_null_device_def)
      qed
    qed
  qed
  from execute_command_returns [OF fork, of line command i pipeIn]
  obtain r s' where "execute_command line command i pipeIn s = Some (r, s')"
    "spawned s' = spawned s @ [?c]"
    by blast
  moreover have "c_argv ?c = args command"
    by (simp add: stage_child_def)
  ultimately show ?thesis
    using main fd0 by (intro exI [of _ ?c] exI [of _ r] exI [of _ s']) simp
qed

theorem null_input_witness:
  "background sleep_bg \<and> file_input sleep_bg = None \<and>
   (\<exists>c r s'. execute_command sleep_bg \<lparr>args = [''sleep'', ''100'']\<rparr> 0 (-1) boot = Some (r, s') \<and>
        spawned s' = [c] \<and> c_argv c = [''sleep'', ''100''] \<and>
        on_null_device (files boot) (get_fd (c_fds c) 0))"
proof -
  have bg: "background sleep_bg" and fi: "file_input sleep_bg = None"
    by (simp_all add: sleep_bg_def)
  have fork: "0 < max_forks boot" "next_pid boot \<noteq> -1"
    by (simp_all add: boot_def)
  have std: "get_fd (fds boot) 0 = Some Tty"
    by (simp add: boot_fd)
  have nonull: "\<forall>n g. get_fd (fds boot) n = Some g \<longrightarrow> \<not> on_null_device (files boot) (Some g)"
    by (simp add: boot_fd on_null_device_def)
  have dev: "files boot ''/dev/null'' = Some NullDevice"
    by (simp add: boot_def)
  have expl: "\<forall>p. file_input sleep_bg = Some p \<longrightarrow> files boot p \<noteq> Some NullDevice"
    by (simp add: fi)
  have sp: "spawned boot = []" by (simp add: boot_def)
  from null_input_for_background_stage [OF bg fork std nonull dev expl,
      of "\<lparr>args = [''sleep'', ''100'']\<rparr>" 0 "-1"]
  show ?thesis
    by (simp add: bg fi sp)
qed

text \<open>
  Claim C3 as stated fails: in the background line \<^verbatim>\<open>cd /tmp | cat &\<close> the stage
  \<^verbatim>\<open>cat\<close> has index 1, it is not the first stage, and its standard input is the null
  device, since the builtin before it left no pipe.
\<close>

theorem null_input_not_only_for_first_stage:
  "background cd_then_cat_bg \<and> file_input cd_then_cat_bg = None \<and>
   map_option (\<lambda>s. map c_argv (spawned s)) (execute_line cd_then_cat_bg boot) =
     Some [[''cat'']] \<and>
   args (cmds cd_then_cat_bg ! 1) = [''cat''] \<and>
   map_option (\<lambda>s. map (\<lambda>c. get_fd (c_fds c) 0) (spawned s)) (execute_line cd_then_cat_bg boot) =
     Some [Some (OpenFile ''/dev/null'' {O_RDONLY})] \<and>
   files boot ''/dev/null'' = Some NullDevice"
  by (simp add: cd_then_cat_bg_def boot_def eval_defs)

subsection \<open>Claim C4: pipe descriptors left open\<close>

text \<open>
  Claim C4 on the code, for \<^verbatim>\<open>ls | wc\<close>.  The shell closes both ends of the pipe (its
  descriptors 3 and 4 are closed at the end), and \<^verbatim>\<open>wc\<close> holds the read end as its standard
  input only.  But \<^verbatim>\<open>ls\<close>, which writes to the pipe through descriptor 1, still holds the
  read end of that pipe, as descriptor 3, when its program is loaded: the child never
  closes \<^verbatim>\<open>pipes[0]\<close>.
\<close>

theorem child_keeps_read_end_of_its_own_pipe:
  "map_option (\<lambda>s. map c_argv (spawned s)) (execute_line ls_wc boot) =
     Some [[''ls''], [''wc'']] \<and>
   map_option (\<lambda>s. map c_fds (spawned s)) (execute_line ls_wc boot) =
     Some [[Some Tty, Some (PipeW 0), Some Tty, Some (PipeR 0), None],
           [Some (PipeR 0), Some Tty, Some Tty, None, None]] \<and>
   map_option fds (execute_line ls_wc boot) = Some [Some Tty, Some Tty, Some Tty, None, None]"
  by (simp add: ls_wc_def boot_def eval_defs)

subsection \<open>Claim C5: the one blocking wait\<close>

text \<open>
  Claim C5 on the code.  The executor calls the blocking \<^verbatim>\<open>waitpid\<close> once, for the process
  of the final stage, and does not test its result.  For \<^verbatim>\<open>ls\<close> alone, where the call
  collects the process, the executor records the status of that process: one line.  For
  \<^verbatim>\<open>ls | wc\<close>, \<^verbatim>\<open>ls\<close> comes to its end before the call has collected \<^verbatim>\<open>wc\<close>, and the
  handler runs first; it does not return while a child runs, so it collects and records
  both processes; the call then finds no child, fails and leaves \<^verbatim>\<open>stat\<close> uninitialised,
  and the executor records for \<^verbatim>\<open>wc\<close> what lies in that variable: a third line, here the
  end by signal 9 of a process that exited with status 0.
\<close>

theorem final_stage_recorded_from_unset_status:
  "map_option waited (execute_line ls_only boot) = Some [1000] \<and>
   map_option (\<lambda>s. cstr (endstatus s)) (execute_line ls_only boot) = Some (exit_line 1000 0) \<and>
   fate handler_runs_first 1001 = Exited 0 \<and> junk_stat handler_runs_first = Signaled 9 \<and>
   map_option waited (execute_line ls_wc handler_runs_first) = Some [1001] \<and>
   map_option (\<lambda>s. cstr (endstatus s)) (execute_line ls_wc handler_runs_first) =
     Some (exit_line 1000 0 @ exit_line 1001 0 @ signal_line 1001 9)"
proof -
  have len: "length (exit_line 1000 0) = 37" "length (exit_line 1001 0) = 37"
    "length (signal_line 1001 9) = 32"
    by (simp_all add: exit_line_def signal_line_def fmt_d_def decimal.simps digit_char_def)
  have line: "status_line (Exited 0) p = exit_line p 0" "status_line (Signaled 9) p = signal_line p 9"
    for p
    by (simp_all add: status_line_def)
  have "\<exists>X. execute_line ls_only boot = Some (record_end (Exited 0) 1000 X) \<and>
         endstatus X = replicate ENDSTATUS_BUF_LEN NUL \<and> waited X = [1000]"
    apply (simp add: ls_only_def boot_def eval_defs)
    apply (rule exI, rule conjI, rule refl)
    apply simp
    done
  then obtain X where X: "execute_line ls_only boot = Some (record_end (Exited 0) 1000 X)"
    "endstatus X = replicate ENDSTATUS_BUF_LEN NUL" "waited X = [1000]"
    by blast
  have x0: "buf_ok (endstatus X)" "cstr (endstatus X) = []"
    by (simp_all add: X(2) buf_ok_zeroed cstr_zeroed)
  note x1 = record_end_text [OF x0(1), of "Exited 0" 1000]
  have tx: "cstr (endstatus (record_end (Exited 0) 1000 X)) = exit_line 1000 0"
    unfolding x1(2) x0(2) by (simp add: line len ENDSTATUS_BUF_LEN_def)
  have "\<exists>Y. execute_line ls_wc handler_runs_first =
           Some (record_end (Signaled 9) 1001
                  (record_end (Exited 0) 1001 (record_end (Exited 0) 1000 Y))) \<and>
         endstatus Y = replicate ENDSTATUS_BUF_LEN NUL \<and> waited Y = [1001]"
    apply (simp add: ls_wc_def handler_runs_first_def boot_def eval_defs
        record_end_children_upd [symmetric] record_end_waited_upd [symmetric])
    apply (rule exI, rule conjI, rule refl)
    apply simp
    done
  then obtain Y where Y: "execute_line ls_wc handler_runs_first =
      Some (record_end (Signaled 9) 1001
             (record_end (Exited 0) 1001 (record_end (Exited 0) 1000 Y)))"
    "endstatus Y = replicate ENDSTATUS_BUF_LEN NUL" "waited Y = [1001]"
    by blast
  have y0: "buf_ok (endstatus Y)" "cstr (endstatus Y) = []"
    by (simp_all add: Y(2) buf_ok_zeroed cstr_zeroed)
  note y1 = record_end_text [OF y0(1), of "Exited 0" 1000]
  note y2 = record_end_text [OF y1(1), of "Exited 0" 1001]
  note y3 = record_end_text [OF y2(1), of "Signaled 9" 1001]
  have ty: "cstr (endstatus (record_end (Signaled 9) 1001
              (record_end (Exited 0) 1001 (record_end (Exited 0) 1000 Y)))) =
      exit_line 1000 0 @ exit_line 1001 0 @ signal_line 1001 9"
    unfolding y3(2) y2(2) y1(2) y0(2) by (simp add: line len ENDSTATUS_BUF_LEN_def)
  have st: "fate handler_runs_first 1001 = Exited 0" "junk_stat handler_runs_first = Signaled 9"
    by (simp_all add: handler_runs_first_def boot_def)
  show ?thesis
    unfolding X(1) Y(1) option.map tx ty by (simp add: st X(3) Y(3))
qed

text \<open>
  When the final stage of a line is the \<^verbatim>\<open>cd\<close> builtin, as in the line \<^verbatim>\<open>cd /tmp\<close>, which
  is not a background line, the executor creates no process and waits for none.
\<close>

theorem no_wait_when_final_stage_is_cd:
  "\<not> background cd_tmp \<and> map_option spawned (execute_line cd_tmp boot) = Some [] \<and>
   map_option waited (execute_line cd_tmp boot) = Some [] \<and>
   map_option cwd (execute_line cd_tmp boot) = Some ''/tmp''"
  by (simp add: cd_tmp_def boot_def eval_defs)

subsection \<open>Claim C8: the file of an output redirection\<close>

text \<open>
  Claim C8 on the code, for \<^verbatim>\<open>ls >> out.txt\<close> run twice where \<^verbatim>\<open>out.txt\<close> does not exist.
  The call of \<^verbatim>\<open>open\<close> passes no mode, so the permissions of the new file are taken from
  whatever lies in the argument's place: with the value 0 there the file is created without
  the owner's write permission, the second run cannot open it (one diagnostic), and its
  output goes to the terminal, not to the end of the file.  With the value 0777 there the
  file gets the mode 0755 and the second run opens it.
\<close>

theorem created_file_has_indeterminate_mode:
  "junk_mode boot = 0 \<and>
   map_option (\<lambda>s. files s ''out.txt'') (execute_line ls_append boot) =
     Some (Some (Regular [] 0)) \<and>
   map_option (\<lambda>s. map c_diag (spawned s))
     (Option.bind (execute_line ls_append boot) (execute_line ls_append)) =
     Some [[], [''Output redirection failed'']] \<and>
   map_option (\<lambda>s. map (\<lambda>c. get_fd (c_fds c) 1) (spawned s))
     (Option.bind (execute_line ls_append boot) (execute_line ls_append)) =
     Some [Some (OpenFile ''out.txt'' {O_APPEND, O_WRONLY, O_CREAT}), Some Tty] \<and>
   map_option (\<lambda>s. files s ''out.txt'') (execute_line ls_append (boot\<lparr>junk_mode := 0x1FF\<rparr>)) =
     Some (Some (Regular [] 0x1ED)) \<and>
   map_option (\<lambda>s. map c_diag (spawned s))
     (Option.bind (execute_line ls_append (boot\<lparr>junk_mode := 0x1FF\<rparr>))
        (execute_line ls_append)) = Some [[], []]"
  by (simp add: ls_append_def boot_def eval_defs)

subsection \<open>Claim C9: a redirection that cannot be opened\<close>

text \<open>
  Claim C9.  For every stage whose process can be created, in a shell whose three standard
  descriptors are open: the child is started with the command's arguments and the shell's
  error stream; when the file for its input cannot be opened, the child reports it with
  exactly one diagnostic and its standard input is the one of the shell; when the file for
  its output cannot be opened, the child reports it with exactly one diagnostic and its
  standard output is the one of the shell.
\<close>

theorem failed_redirection_reported_and_inherited:
  assumes fork: "0 < max_forks s" "next_pid s \<noteq> -1"
    and std0: "get_fd (fds s) 0 = Some f0"
    and std1: "get_fd (fds s) 1 = Some f1"
    and std2: "get_fd (fds s) 2 = Some f2"
    and pin: "pipeIn \<noteq> 1" "pipeIn \<noteq> 2"
  shows "\<exists>c r s'. execute_command line command i pipeIn s = Some (r, s') \<and>
             spawned s' = spawned s @ [c] \<and>
             c_pid c = next_pid s \<and> c_argv c = args command \<and>
             get_fd (c_fds c) 2 = Some f2 \<and>
             (\<not> 0 < pipeIn \<and> wants_input line i \<and>
              fst (fs_open (input_path line) {O_RDONLY} None s) = None \<longrightarrow>
                count_list (c_diag c) ''Input redirection failed'' = 1 \<and>
                get_fd (c_fds c) 0 = Some f0) \<and>
             (is_last line i \<and> file_output line \<noteq> None \<and>
              fst (fs_open (out_path line) (output_flags line) None s) = None \<longrightarrow>
                count_list (c_diag c) ''Output redirection failed'' = 1 \<and>
                get_fd (c_fds c) 1 = Some f1)"
proof -
  let ?s2 = "forked line i s"
  let ?c = "stage_child line command i pipeIn s"
  let ?ch = "child0 line (next_pid s) ?s2"
  let ?c1 = "fst (redirect_input line i pipeIn (?ch, ?s2))"
  have f: "fst (fs_open p fl m ?s2) = fst (fs_open p fl m s)" for p fl m
    by (rule fs_open_frame) simp
  from execute_command_returns [OF fork, of line command i pipeIn]
  obtain r s' where sp: "execute_command line command i pipeIn s = Some (r, s')"
    "spawned s' = spawned s @ [?c]"
    by blast
  have fields: "c_pid ?c = next_pid s" "c_argv ?c = args command"
    by (simp_all add: stage_child_def)
  have n2: "nat pipeIn \<noteq> 2" using pin(2) by linarith
  have e2: "get_fd (c_fds ?c) 2 = Some f2"
    by (rule stage_child_other [OF std2 _ n2]) simp
  have inp: "count_list (c_diag ?c) ''Input redirection failed'' = 1 \<and>
             get_fd (c_fds ?c) 0 = Some f0"
    if a: "\<not> 0 < pipeIn" "wants_input line i"
      "fst (fs_open (input_path line) {O_RDONLY} None s) = None"
  proof -
    have "c_fds ?c1 = fds ?s2"
      using a by (simp add: redirect_input_fds_kept f)
    then have "get_fd (c_fds ?c) 0 = Some f0"
      using stage_child_fd0 [OF std0, where l = line and cmd = command and i = i and cp = pipeIn]
        forked_open_kept [OF std0, where l = line and i = i]
      by simp
    moreover have "count_list (c_diag ?c) ''Input redirection failed'' = 1"
      using a by (simp add: stage_child_diag)
    ultimately show ?thesis by simp
  qed
  have outp: "count_list (c_diag ?c) ''Output redirection failed'' = 1 \<and>
              get_fd (c_fds ?c) 1 = Some f1"
    if a: "is_last line i" "file_output line \<noteq> None"
      "fst (fs_open (out_path line) (output_flags line) None s) = None"
  proof -
    have t1: "get_fd (c_fds ?ch) 1 = Some f1"
      using forked_open_kept [OF std1, where l = line and i = i] by simp
    have "get_fd (c_fds ?c1) 1 = Some f1"
      by (rule redirect_input_fd1 [OF t1 pin(1)])
    moreover have "c_fds ?c = c_fds ?c1"
      using a by (simp add: stage_child_fds redirect_output_fds_kept f)
    moreover have "count_list (c_diag ?c) ''Output redirection failed'' = 1"
      using a by (simp add: stage_child_diag)
    ultimately show ?thesis by simp
  qed
  show ?thesis
    using sp fields e2 inp outp by (intro exI [of _ ?c] exI [of _ r] exI [of _ s']) simp
qed

theorem failed_redirection_witness:
  "fst (fs_open (input_path cat_redirected) {O_RDONLY} None boot_locked) = None \<and>
   fst (fs_open (out_path cat_redirected) (output_flags cat_redirected) None boot_locked) = None \<and>
   (\<exists>c r s'. execute_command cat_redirected \<lparr>args = [''cat'']\<rparr> 0 (-1) boot_locked = Some (r, s') \<and>
        spawned s' = [c] \<and> c_pid c = 1000 \<and> c_argv c = [''cat''] \<and>
        get_fd (c_fds c) 2 = Some Tty \<and>
        count_list (c_diag c) ''Input redirection failed'' = 1 \<and>
        get_fd (c_fds c) 0 = Some Tty \<and>
        count_list (c_diag c) ''Output redirection failed'' = 1 \<and>
        get_fd (c_fds c) 1 = Some Tty)"
proof -
  have fork: "0 < max_forks boot_locked" "next_pid boot_locked \<noteq> -1"
    by (simp_all add: boot_locked_def boot_def)
  have fd: "get_fd (fds boot_locked) 0 = Some Tty" "get_fd (fds boot_locked) 1 = Some Tty"
    "get_fd (fds boot_locked) 2 = Some Tty"
    by (simp_all add: boot_locked_def boot_fd)
  have pin: "(-1::int) \<noteq> 1" "(-1::int) \<noteq> 2" by simp_all
  have i: "fst (fs_open (input_path cat_redirected) {O_RDONLY} None boot_locked) = None"
    by (simp add: cat_redirected_def input_path_def boot_locked_def boot_def fs_open_def)
  have out: "fst (fs_open (out_path cat_redirected) (output_flags cat_redirected) None boot_locked) = None"
    by (simp add: cat_redirected_def out_path_def output_flags_def boot_locked_def boot_def
        fs_open_def S_IWUSR_def)
  have c: "\<not> 0 < (-1::int)" "wants_input cat_redirected 0" "is_last cat_redirected 0"
    "file_output cat_redirected \<noteq> None"
    by (simp_all add: cat_redirected_def wants_input_def is_last_def n_cmds_def size_sub_def)
  have sp: "spawned boot_locked = []" "next_pid boot_locked = 1000"
    by (simp_all add: boot_locked_def boot_def)
  from failed_redirection_reported_and_inherited [OF fork fd pin,
      of cat_redirected "\<lparr>args = [''cat'']\<rparr>" 0]
  show ?thesis
    using i out c by (simp add: sp)
qed

subsection \<open>Claim C10: the builtin between two commands\<close>

text \<open>
  Claim C10.  For three stages in a row, a command, the \<^verbatim>\<open>cd\<close> builtin and a command: the
  first hands on the read end of a new pipe; across the builtin the loop's descriptor and
  the shell's descriptor table stay as they are and no process is created; and the child
  of the third stage has that read end as its standard input.
\<close>

theorem cd_leaves_pipe_untouched:
  assumes n: "Suc (Suc j) < n_cmds line" "n_cmds line < 2 ^ 64"
    and ext1: "\<not> is_cd (cmds line ! j)"
    and cdst: "is_cd (cmds line ! Suc j)"
    and ext2: "\<not> is_cd (cmds line ! Suc (Suc j))"
    and forks: "2 \<le> max_forks s" and pid: "0 < next_pid s"
    and std0: "get_fd (fds s) 0 = Some f0"
    and cp0: "\<not> 0 < cp0 \<or> fd_valid (fds s) cp0"
  shows "\<exists>cp1 s1 cp2 s2 cp3 s3.
           line_step line j (cp0, s) = Some (cp1, s1) \<and>
           line_step line (Suc j) (cp1, s1) = Some (cp2, s2) \<and>
           line_step line (Suc (Suc j)) (cp2, s2) = Some (cp3, s3) \<and>
           0 < cp1 \<and> get_fd (fds s1) (nat cp1) = Some (PipeR (next_pipe s)) \<and>
           cp2 = cp1 \<and> fds s2 = fds s1 \<and> spawned s2 = spawned s1 \<and>
           (\<exists>c. spawned s3 = spawned s2 @ [c] \<and>
                c_argv c = args (cmds line ! Suc (Suc j)) \<and>
                get_fd (c_fds c) 0 = Some (PipeR (next_pipe s)))"
proof -
  have pos: "0 < n_cmds line" using n(1) by simp
  have nl: "\<not> is_last line j"
    using n by (simp add: is_last_iff [OF pos n(2)])
  have fork: "0 < max_forks s" "next_pid s \<noteq> -1"
    using forks pid by simp_all
  define cp1 where "cp1 = int (pipe_r (fds s))"
  from nonlast_stage_result(1) [OF nl fork std0 cp0, where cmd = "cmds line ! j"]
  obtain s1 where e1: "execute_command line (cmds line ! j) j cp0 s = Some (cp1, s1)"
    and r1: "get_fd (fds s1) (pipe_r (fds s)) = Some (PipeR (next_pipe s))"
    and s10: "get_fd (fds s1) 0 = Some f0"
    and f1: "max_forks s1 = max_forks s - 1" "next_pid s1 = next_pid s + 1"
    unfolding cp1_def by blast
  have p1: "0 < cp1"
    using nonlast_stage_result(2) [OF nl fork std0 cp0] by (simp add: cp1_def)
  have st1: "line_step line j (cp0, s) = Some (cp1, s1)"
    using ext1 e1 by (simp add: line_step_ext)
  let ?s2 = "cd (args (cmds line ! Suc j) ! 1) s1"
  have st2: "line_step line (Suc j) (cp1, s1) = Some (cp1, ?s2)"
    using cdst by (simp add: line_step_cd)
  have fork2: "0 < max_forks ?s2" "next_pid ?s2 \<noteq> -1"
    using f1 forks pid by simp_all
  let ?c = "stage_child line (cmds line ! Suc (Suc j)) (Suc (Suc j)) cp1 ?s2"
  from execute_command_returns [OF fork2, of line "cmds line ! Suc (Suc j)" "Suc (Suc j)" cp1]
  obtain cp3 s3 where
    e3: "execute_command line (cmds line ! Suc (Suc j)) (Suc (Suc j)) cp1 ?s2 = Some (cp3, s3)"
    and sp3: "spawned s3 = spawned ?s2 @ [?c]"
    by blast
  have st3: "line_step line (Suc (Suc j)) (cp1, ?s2) = Some (cp3, s3)"
    using ext2 e3 by (simp add: line_step_ext)
  have argv: "c_argv ?c = args (cmds line ! Suc (Suc j))"
    by (simp add: stage_child_def)
  have r1': "get_fd (fds s1) (nat cp1) = Some (PipeR (next_pipe s))"
    using r1 by (simp add: cp1_def)
  have r2: "get_fd (fds ?s2) (nat cp1) = Some (PipeR (next_pipe s))"
    using r1' by simp
  have g0: "get_fd (fds ?s2) 0 = Some f0"
    using s10 by simp
  have "get_fd (c_fds (child0 line (next_pid ?s2) (forked line (Suc (Suc j)) ?s2))) (nat cp1) =
        Some (PipeR (next_pipe s))"
    using forked_open_kept [OF r2, where l = line and i = "Suc (Suc j)"] by simp
  from redirect_input_fd0_pipe [OF p1 this, where l = line and i = "Suc (Suc j)"
      and s = "forked line (Suc (Suc j)) ?s2"]
    stage_child_fd0 [OF g0, where l = line and cmd = "cmds line ! Suc (Suc j)"
      and i = "Suc (Suc j)" and cp = cp1]
  have fd0: "get_fd (c_fds ?c) 0 = Some (PipeR (next_pipe s))"
    by simp
  have ex: "\<exists>c. spawned s3 = spawned ?s2 @ [c] \<and>
                c_argv c = args (cmds line ! Suc (Suc j)) \<and>
                get_fd (c_fds c) 0 = Some (PipeR (next_pipe s))"
    using sp3 argv fd0 by (intro exI [of _ ?c]) simp
  have "line_step line j (cp0, s) = Some (cp1, s1) \<and>
        line_step line (Suc j) (cp1, s1) = Some (cp1, ?s2) \<and>
        line_step line (Suc (Suc j)) (cp1, ?s2) = Some (cp3, s3) \<and>
        0 < cp1 \<and> get_fd (fds s1) (nat cp1) = Some (PipeR (next_pipe s)) \<and>
        cp1 = cp1 \<and> fds ?s2 = fds s1 \<and> spawned ?s2 = spawned s1 \<and>
        (\<exists>c. spawned s3 = spawned ?s2 @ [c] \<and>
             c_argv c = args (cmds line ! Suc (Suc j)) \<and>
             get_fd (c_fds c) 0 = Some (PipeR (next_pipe s)))"
    using st1 st2 st3 p1 r1' ex by simp
  then show ?thesis
    by (intro exI [of _ cp1] exI [of _ s1] exI [of _ "?s2"] exI [of _ cp3] exI [of _ s3])
qed

theorem cd_leaves_pipe_witness:
  "is_cd (cmds ls_cd_wc ! 1) \<and>
   (\<exists>cp1 s1 cp2 s2 cp3 s3.
      line_step ls_cd_wc 0 (-1, boot) = Some (cp1, s1) \<and>
      line_step ls_cd_wc (Suc 0) (cp1, s1) = Some (cp2, s2) \<and>
      line_step ls_cd_wc (Suc (Suc 0)) (cp2, s2) = Some (cp3, s3) \<and>
      0 < cp1 \<and> get_fd (fds s1) (nat cp1) = Some (PipeR 0) \<and>
      cp2 = cp1 \<and> fds s2 = fds s1 \<and> spawned s2 = spawned s1 \<and>
      (\<exists>c. spawned s3 = spawned s2 @ [c] \<and> c_argv c = [''wc''] \<and>
           get_fd (c_fds c) 0 = Some (PipeR 0)))"
proof -
  have n: "Suc (Suc 0) < n_cmds ls_cd_wc" "n_cmds ls_cd_wc < 2 ^ 64"
    by (simp_all add: n_cmds_def ls_cd_wc_def)
  have st: "\<not> is_cd (cmds ls_cd_wc ! 0)" "is_cd (cmds ls_cd_wc ! Suc 0)"
    "\<not> is_cd (cmds ls_cd_wc ! Suc (Suc 0))"
    by (simp_all add: ls_cd_wc_def is_cd_def n_args_def)
  have fk: "2 \<le> max_forks boot" "0 < next_pid boot"
    by (simp_all add: boot_def)
  have std: "get_fd (fds boot) 0 = Some Tty"
    by (simp add: boot_fd)
  have cp: "\<not> 0 < (-1::int) \<or> fd_valid (fds boot) (-1)"
    by simp
  have a: "args (cmds ls_cd_wc ! Suc (Suc 0)) = [''wc'']" "next_pipe boot = 0"
    by (simp_all add: ls_cd_wc_def boot_def)
  from cd_leaves_pipe_untouched [OF n st fk std cp]
  show ?thesis
    using st(2) by (simp add: a)
qed

section \<open>The flush and the signal\<close>

lemma sigchld_none [simp]: "sigchld [] s = Some s"
  by (simp add: sigchld_def)

lemma clear_loop_quiet:
  assumes "\<forall>k. 2 + i \<le> k \<longrightarrow> sched k = []"
    and "length (endstatus s) = ENDSTATUS_BUF_LEN" and "i \<le> ENDSTATUS_BUF_LEN"
  shows "clear_loop sched i s =
         Some (s\<lparr>endstatus := take i (endstatus s) @ replicate (ENDSTATUS_BUF_LEN - i) NUL\<rparr>)"
  using assms
proof (induction "ENDSTATUS_BUF_LEN - i" arbitrary: i s)
  case 0
  then have "i = ENDSTATUS_BUF_LEN" by simp
  with "0.prems"(2) show ?case
    by (subst clear_loop.simps) simp
next
  case (Suc n)
  then have lt: "i < ENDSTATUS_BUF_LEN" by simp
  let ?s1 = "s\<lparr>endstatus := (endstatus s)[i := NUL]\<rparr>"
  have q: "sched (2 + i) = []" using Suc.prems(1) by simp
  have step: "clear_loop sched i s = clear_loop sched (i + 1) ?s1"
    using lt Suc.prems(2) q by (subst clear_loop.simps) simp
  have "clear_loop sched (i + 1) ?s1 =
        Some (?s1\<lparr>endstatus := take (i + 1) (endstatus ?s1) @
                 replicate (ENDSTATUS_BUF_LEN - (i + 1)) NUL\<rparr>)"
    using Suc.hyps(2) Suc.prems lt by (intro Suc.hyps(1)) simp_all
  moreover have "take (i + 1) ((endstatus s)[i := NUL]) @ replicate (ENDSTATUS_BUF_LEN - (i + 1)) NUL =
        take i (endstatus s) @ replicate (ENDSTATUS_BUF_LEN - i) NUL"
  proof -
    have "take (i + 1) ((endstatus s)[i := NUL]) = take i (endstatus s) @ [NUL]"
      using lt Suc.prems(2) by (simp add: take_Suc_conv_app_nth)
    moreover have "replicate (ENDSTATUS_BUF_LEN - i) NUL = NUL # replicate (ENDSTATUS_BUF_LEN - (i + 1)) NUL"
      using lt by (cases "ENDSTATUS_BUF_LEN - i") simp_all
    ultimately show ?thesis by simp
  qed
  ultimately show ?case
    using step by simp
qed

lemma flush_quiet:
  assumes quiet: "\<forall>k. 1 \<le> k \<longrightarrow> sched k = []"
    and h: "sigchld (sched 0) s = Some s0"
    and buf: "buf_ok (endstatus s0)"
  shows "flush sched s =
         Some (if cstr (endstatus s0) = [] then s0
               else s0\<lparr>diag := diag s0 @ [cstr (endstatus s0)],
                      endstatus := replicate ENDSTATUS_BUF_LEN NUL\<rparr>)"
proof -
  from buf have len: "length (endstatus s0) = ENDSTATUS_BUF_LEN" and nul: "NUL \<in> set (endstatus s0)"
    by (simp_all add: buf_ok_def)
  have sl: "strlen (endstatus s0) = Some (length (cstr (endstatus s0)))"
    using nul by (simp add: strlen_def)
  have q1: "sched (Suc 0) = []" using quiet by simp
  have q2: "\<forall>k. 2 + 0 \<le> k \<longrightarrow> sched k = []" using quiet by simp
  have cl: "clear_loop sched 0 (fprintf_stderr (cstr (endstatus s0)) s0) =
        Some (s0\<lparr>diag := diag s0 @ [cstr (endstatus s0)],
                 endstatus := replicate ENDSTATUS_BUF_LEN NUL\<rparr>)"
    using clear_loop_quiet [OF q2, of "fprintf_stderr (cstr (endstatus s0)) s0"] len
    by (simp add: fprintf_stderr_def)
  show ?thesis
    by (simp add: flush_def h sl q1 cl)
qed

lemma terminates_frame [simp]:
  "endstatus (fold child_terminates evs s) = endstatus s"
  "diag (fold child_terminates evs s) = diag s"
  by (induction evs arbitrary: s) (simp_all add: child_terminates_def)

lemma before_flush_state:
  "buf_ok (endstatus before_flush)"
  "cstr (endstatus before_flush) = exit_line 1000 0"
  "children before_flush = [(1001, None)]"
  "diag before_flush = []"
proof -
  have zb: "endstatus boot = replicate ENDSTATUS_BUF_LEN NUL"
    by (simp add: boot_def)
  from display_process_end_ok [OF buf_ok_zeroed, of "Exited 0" 1000]
  obtain b1 where b1: "display_process_end (Exited 0) 1000 (replicate ENDSTATUS_BUF_LEN NUL) = Some b1"
    "buf_ok b1"
    "cstr b1 = take (ENDSTATUS_BUF_LEN - 1) (cstr (replicate ENDSTATUS_BUF_LEN NUL) @ status_line (Exited 0) 1000)"
    by blast
  have l1: "length (exit_line 1000 0) = 37"
    by (simp add: exit_line_1000_0)
  have c1: "cstr b1 = exit_line 1000 0"
    unfolding b1(3) cstr_zeroed using l1 by (simp add: status_line_def ENDSTATUS_BUF_LEN_def)
  have e: "endstatus before_flush = b1"
    by (simp add: before_flush_def record_end_def zb b1(1))
  show "buf_ok (endstatus before_flush)" by (simp add: e b1(2))
  show "cstr (endstatus before_flush) = exit_line 1000 0" by (simp add: e c1)
  show "children before_flush = [(1001, None)]" by (simp add: before_flush_def)
  show "diag before_flush = []" by (simp add: before_flush_def boot_def)
qed

text \<open>
  Claim C2, as amended.  When the signal arrives only before the test of the flush, every
  child of the table has terminated by then (so that the handler returns) and the text
  fits the array, the flush writes what the array held followed by one status line for
  each child collected, in the order of the table, and leaves the array's string and the
  table empty; the next flush writes nothing, so no line is lost and none is written
  twice.
\<close>

theorem flush_reports_each_termination_once:
  assumes quiet: "\<forall>k. 1 \<le> k \<longrightarrow> sched k = []"
    and ev: "sched 0 \<noteq> []"
    and allterm: "\<forall>e \<in> set (children (fold child_terminates (sched 0) s)). snd e \<noteq> None \<and> 0 < fst e"
    and buf: "buf_ok (endstatus s)"
    and fits: "length (cstr (endstatus s)) +
               length (concat (map (\<lambda>(w, p). status_line w p)
                  (terminated (children (fold child_terminates (sched 0) s))))) < ENDSTATUS_BUF_LEN"
  shows "\<exists>s'. flush sched s = Some s' \<and>
           concat (diag s') = concat (diag s) @ cstr (endstatus s) @
              concat (map (\<lambda>(w, p). status_line w p)
                 (terminated (children (fold child_terminates (sched 0) s)))) \<and>
           cstr (endstatus s') = [] \<and> children s' = [] \<and>
           flush (\<lambda>k. []) s' = Some s'"
proof -
  let ?t = "fold child_terminates (sched 0) s"
  let ?lines = "concat (map (\<lambda>(w, p). status_line w p) (terminated (children ?t)))"
  have buft: "buf_ok (endstatus ?t)" using buf by simp
  from handler_returns [OF allterm buft]
  obtain b where b: "sigchld_handler ?t = Some (?t\<lparr>endstatus := b, children := []\<rparr>)"
    "display_all (terminated (children ?t)) (endstatus ?t) = Some b" "buf_ok b"
    by blast
  from display_all_ok [OF buft, of "terminated (children ?t)"] b(2)
  have "cstr b = take (ENDSTATUS_BUF_LEN - 1) (cstr (endstatus s) @ ?lines)"
    by simp
  with fits have cb: "cstr b = cstr (endstatus s) @ ?lines"
    by simp
  let ?s0 = "?t\<lparr>endstatus := b, children := []\<rparr>"
  have h: "sigchld (sched 0) s = Some ?s0"
    using ev b(1) by (simp add: sigchld_def)
  let ?s' = "if cstr b = [] then ?s0
             else ?s0\<lparr>diag := diag ?s0 @ [cstr b], endstatus := replicate ENDSTATUS_BUF_LEN NUL\<rparr>"
  have f1: "flush sched s = Some ?s'"
    using flush_quiet [OF quiet h] b(3) by simp
  have ok': "buf_ok (endstatus ?s')"
    using b(3) by (simp add: buf_ok_zeroed)
  have e': "cstr (endstatus ?s') = []"
    by (simp add: cstr_zeroed)
  have s0': "sigchld ((\<lambda>k. []) 0) ?s' = Some ?s'"
    by simp
  have f2: "flush (\<lambda>k. []) ?s' = Some ?s'"
    using flush_quiet [OF _ s0' ok'] e' by simp
  have d: "concat (diag ?s') = concat (diag s) @ cstr (endstatus s) @ ?lines"
    using cb by simp
  have c: "children ?s' = []" by simp
  show ?thesis
    using f1 f2 d e' c by (intro exI [of _ ?s']) (simp only: simp_thms)
qed

theorem flush_reports_once_witness:
  "\<exists>s'. flush early_signal before_flush = Some s' \<and>
        concat (diag s') = exit_line 1000 0 @ exit_line 1001 0 \<and>
        cstr (endstatus s') = [] \<and> children s' = [] \<and>
        flush (\<lambda>k. []) s' = Some s'"
proof -
  have ch: "children (fold child_terminates (early_signal 0) before_flush) = [(1001, Some (Exited 0))]"
    by (simp add: early_signal_def child_terminates_def before_flush_state)
  have q: "\<forall>k. 1 \<le> k \<longrightarrow> early_signal k = []"
    by (simp add: early_signal_def)
  have ev: "early_signal 0 \<noteq> []"
    by (simp add: early_signal_def)
  have tm: "\<forall>e \<in> set (children (fold child_terminates (early_signal 0) before_flush)).
              snd e \<noteq> None \<and> 0 < fst e"
    by (simp add: ch)
  have l0: "length (exit_line 1000 0) = 37"
    by (simp add: exit_line_1000_0)
  have l1: "length (exit_line 1001 0) = 37"
    by (simp add: exit_line_def fmt_d_def decimal.simps digit_char_def)
  have fits: "length (cstr (endstatus before_flush)) +
               length (concat (map (\<lambda>(w, p). status_line w p)
                  (terminated (children (fold child_terminates (early_signal 0) before_flush)))))
              < ENDSTATUS_BUF_LEN"
    by (simp add: ch before_flush_state status_line_def l0 l1 ENDSTATUS_BUF_LEN_def)
  from flush_reports_each_termination_once [OF q ev tm before_flush_state(1) fits]
  show ?thesis
    by (simp add: ch before_flush_state status_line_def)
qed

text \<open>
  Claim C2 as stated fails.  Process 1001 terminates after the \<^verbatim>\<open>fprintf\<close> of the flush
  and before the clearing loop: the handler collects it and appends its line, the loop
  then zeroes the array, and neither this flush nor the next one writes the line.
\<close>

theorem notification_during_flush_is_lost:
  "map_option diag (flush late_signal before_flush) = Some [exit_line 1000 0] \<and>
   map_option children (flush late_signal before_flush) = Some [] \<and>
   map_option (\<lambda>s. cstr (endstatus s)) (flush late_signal before_flush) = Some [] \<and>
   map_option diag (Option.bind (flush late_signal before_flush) (flush (\<lambda>k. []))) =
     Some [exit_line 1000 0]"
proof -
  have zb: "endstatus boot = replicate ENDSTATUS_BUF_LEN NUL"
    by (simp add: boot_def)
  from display_process_end_ok [OF buf_ok_zeroed, of "Exited 0" 1000]
  obtain b1 where b1: "display_process_end (Exited 0) 1000 (replicate ENDSTATUS_BUF_LEN NUL) = Some b1"
    "buf_ok b1"
    "cstr b1 = take (ENDSTATUS_BUF_LEN - 1) (cstr (replicate ENDSTATUS_BUF_LEN NUL) @ status_line (Exited 0) 1000)"
    by blast
  have l1: "length (exit_line 1000 0) = 37"
    by (simp add: exit_line_1000_0)
  have c1: "cstr b1 = exit_line 1000 0"
    unfolding b1(3) cstr_zeroed using l1 by (simp add: status_line_def ENDSTATUS_BUF_LEN_def)
  define S where "S = boot\<lparr>endstatus := b1, children := [(1001, None)]\<rparr>"
  have S: "before_flush = S"
    by (simp add: before_flush_def record_end_def zb b1(1) S_def)
  have sl: "strlen (endstatus S) = Some 37"
    using b1(2) c1 l1 by (simp add: S_def strlen_def buf_ok_def)
  define S1 where "S1 = S\<lparr>diag := [exit_line 1000 0]\<rparr>"
  have fp: "fprintf_stderr (cstr (endstatus S)) S = S1"
    by (simp add: fprintf_stderr_def S1_def S_def c1 boot_def)
  define T where "T = S1\<lparr>children := [(1001, Some (Exited 0))]\<rparr>"
  have ft: "fold child_terminates (late_signal 2) S1 = T"
    by (simp add: late_signal_def child_terminates_def T_def S1_def S_def)
  have "\<exists>b. sigchld_handler T = Some (T\<lparr>endstatus := b, children := []\<rparr>) \<and>
           display_all (terminated (children T)) (endstatus T) = Some b \<and> buf_ok b"
    by (rule handler_returns) (simp_all add: T_def S1_def S_def b1(2))
  then obtain b2 where b2: "sigchld_handler T = Some (T\<lparr>endstatus := b2, children := []\<rparr>)"
    "buf_ok b2"
    by blast
  from b2(2) have len2: "length b2 = ENDSTATUS_BUF_LEN" by (simp add: buf_ok_def)
  have sg: "sigchld (late_signal (2 + 0)) S1 = Some (T\<lparr>endstatus := b2, children := []\<rparr>)"
    using ft b2(1) by (simp add: sigchld_def) (simp add: late_signal_def)
  define X where "X = (T\<lparr>endstatus := b2, children := []\<rparr>)\<lparr>endstatus := b2[0 := NUL]\<rparr>"
  have step: "clear_loop late_signal 0 S1 = clear_loop late_signal (0 + 1) X"
    using sg len2
    by (subst clear_loop.simps) (simp add: X_def ENDSTATUS_BUF_LEN_def)
  have q: "\<forall>k. 2 + 1 \<le> k \<longrightarrow> late_signal k = []"
    by (simp add: late_signal_def)
  define F where "F = X\<lparr>endstatus := replicate ENDSTATUS_BUF_LEN NUL\<rparr>"
  have "take 1 (b2[0 := NUL]) = [NUL]"
    using len2 by (cases b2) (simp_all add: ENDSTATUS_BUF_LEN_def)
  moreover have "replicate ENDSTATUS_BUF_LEN NUL = NUL # replicate (ENDSTATUS_BUF_LEN - 1) NUL"
    using replicate_Suc [of "ENDSTATUS_BUF_LEN - 1" NUL] by (simp add: ENDSTATUS_BUF_LEN_def)
  ultimately have tk: "take 1 (endstatus X) @ replicate (ENDSTATUS_BUF_LEN - 1) NUL =
      replicate ENDSTATUS_BUF_LEN NUL"
    by (simp add: X_def)
  have cl: "clear_loop late_signal 1 X = Some F"
    using clear_loop_quiet [OF q, of X] len2 tk
    by (simp add: F_def) (simp add: X_def ENDSTATUS_BUF_LEN_def)
  have fl: "flush late_signal before_flush = Some F"
    using step cl
    by (simp add: flush_def S sl fp late_signal_def [of 0] late_signal_def [of 1]
        late_signal_def [of "Suc 0"])
  have dF: "diag F = [exit_line 1000 0]" "children F = []" "endstatus F = replicate ENDSTATUS_BUF_LEN NUL"
    by (simp_all add: F_def X_def T_def S1_def)
  have s0: "sigchld ((\<lambda>k. []) 0) F = Some F" by simp
  have f2: "flush (\<lambda>k. []) F = Some F"
    using flush_quiet [OF _ s0] by (simp add: dF buf_ok_zeroed cstr_zeroed)
  show ?thesis
    by (simp add: fl f2 dF cstr_zeroed)
qed

end
